theory Spec2Isabelle
  imports
    Main
    "HOL-Library.Char_ord"
    "HOL-Library.List_Lexorder"
    "HOL-Library.Product_Lexorder"
begin

section \<open>Python primitives used by main.py\<close>

text \<open>
  \<^verbatim>\<open>s.split(c)\<close> for a one-character separator: every occurrence of the separator
  cuts, so the result is never empty and \<^verbatim>\<open>"".split(".")\<close> is \<^verbatim>\<open>[""]\<close>.
\<close>

fun split_on :: "char \<Rightarrow> string \<Rightarrow> string list" where
  "split_on c [] = [[]]"
| "split_on c (x # xs) =
     (if x = c then [] # split_on c xs
      else (x # hd (split_on c xs)) # tl (split_on c xs))"

text \<open>\<^verbatim>\<open>sep.join(xs)\<close>.\<close>

fun join_with :: "string \<Rightarrow> string list \<Rightarrow> string" where
  "join_with sep [] = []"
| "join_with sep [x] = x"
| "join_with sep (x # y # ys) = x @ sep @ join_with sep (y # ys)"

definition split_dot :: "string \<Rightarrow> string list" where
  "split_dot s = split_on (CHR ''.'') s"

definition join_dot :: "string list \<Rightarrow> string" where
  "join_dot xs = join_with ''.'' xs"

text \<open>
  The slice \<^verbatim>\<open>xs[:stop]\<close>: a negative stop counts from the end and is clamped at
  the start of the list, a stop beyond the end is clamped at the end.
\<close>

definition py_slice_to :: "'a list \<Rightarrow> int \<Rightarrow> 'a list" where
  "py_slice_to xs stop =
     (if stop < 0 then take (nat (int (length xs) + stop)) xs else take (nat stop) xs)"

text \<open>
  A \<^verbatim>\<open>dict\<close> keeps its keys in the order of their first insertion, and
  \<^verbatim>\<open>d[k] = v\<close> on a present key replaces the value in place. It is an association
  list with at most one entry per key.
\<close>

type_synonym ('k, 'v) pydict = "('k \<times> 'v) list"

fun dict_set :: "('k, 'v) pydict \<Rightarrow> 'k \<Rightarrow> 'v \<Rightarrow> ('k, 'v) pydict" where
  "dict_set [] k v = [(k, v)]"
| "dict_set ((k', v') # d) k v =
     (if k' = k then (k, v) # d else (k', v') # dict_set d k v)"

definition py_in :: "'k \<Rightarrow> ('k, 'v) pydict \<Rightarrow> bool" where
  "py_in k d = (k \<in> set (map fst d))"

datatype py_error = KeyError

section \<open>The source tree\<close>

text \<open>
  A path below the root, as \<^verbatim>\<open>filepath.relative_to(root).parts\<close> gives it: the
  directory segments and the file name. A path that \<^verbatim>\<open>root.rglob\<close> yields always has
  a last part, so \<^verbatim>\<open>parts[-1]\<close> is the file name.
\<close>

datatype relpath = RelPath (dirs: "string list") (fname: string)

definition parts :: "relpath \<Rightarrow> string list" where
  "parts p = dirs p @ [fname p]"

text \<open>\<^verbatim>\<open>str(filepath.relative_to(root))\<close>.\<close>

definition rel_path_str :: "relpath \<Rightarrow> string" where
  "rel_path_str p = join_with ''/'' (parts p)"

text \<open>
  The import nodes that \<^verbatim>\<open>ast.walk\<close> meets: \<^verbatim>\<open>ast.Import\<close> with the names of its
  aliases, and \<^verbatim>\<open>ast.ImportFrom\<close> with its level (optional in the grammar), its
  module (absent in \<^verbatim>\<open>from . import x\<close>) and the names of its aliases.
\<close>

datatype stmt =
    Import "string list"
  | ImportFrom "int option" "string option" "string list"

text \<open>
  The file system below the root: the paths that \<^verbatim>\<open>root.rglob("*.py")\<close> yields, and
  for each path the import nodes of its syntax tree, or \<^const>\<open>None\<close> when reading or
  parsing the file fails (\<^verbatim>\<open>OSError\<close>, \<^verbatim>\<open>SyntaxError\<close>).
\<close>

record source_tree =
  rglob_py :: "relpath list"
  read_imports :: "relpath \<Rightarrow> stmt list option"

section \<open>Module registry\<close>

definition collect_python_files :: "source_tree \<Rightarrow> relpath list" where
  "collect_python_files t = sort_key parts (rglob_py t)"

definition file_to_module_name :: "relpath \<Rightarrow> string" where
  "file_to_module_name filepath =
     (if fname filepath = ''__init__.py''
      then (if dirs filepath = [] then [] else join_dot (dirs filepath))
      else join_dot (dirs filepath @ [py_slice_to (fname filepath) (- 3)]))"

definition compute_depth :: "relpath \<Rightarrow> int" where
  "compute_depth filepath = int (length (parts filepath)) - 1"

definition registry_step :: "relpath \<Rightarrow> (string, relpath) pydict \<Rightarrow> (string, relpath) pydict" where
  "registry_step filepath registry =
     (let name = file_to_module_name filepath
      in if name \<noteq> [] then dict_set registry name filepath else registry)"

definition build_module_registry :: "source_tree \<Rightarrow> (string, relpath) pydict" where
  "build_module_registry t = fold registry_step (collect_python_files t) []"

section \<open>Import resolution\<close>

definition relative_base_step ::
  "string \<Rightarrow> (string, relpath) pydict \<Rightarrow> string \<Rightarrow> string set \<Rightarrow> string set" where
  "relative_base_step base known_modules name resolved =
     (if name \<noteq> ''*'' \<and> py_in (base @ ''.'' @ name) known_modules
      then insert (base @ ''.'' @ name) resolved
      else if py_in base known_modules then insert base resolved
      else resolved)"

definition relative_bare_step ::
  "string list \<Rightarrow> (string, relpath) pydict \<Rightarrow> string \<Rightarrow> string set \<Rightarrow> string set" where
  "relative_bare_step anchor_parts known_modules name resolved =
     (let candidate = join_dot (anchor_parts @ [name])
      in if py_in candidate known_modules then insert candidate resolved else resolved)"

definition resolve_relative_import ::
  "int \<Rightarrow> string option \<Rightarrow> string list \<Rightarrow> string \<Rightarrow> (string, relpath) pydict \<Rightarrow> string set" where
  "resolve_relative_import level module names current_module known_modules =
     (let prts = split_dot current_module
      in if int (length prts) < level then {}
         else
           let anchor_parts = py_slice_to prts (- level)
           in case module of
                Some m \<Rightarrow>
                  (let base_parts = anchor_parts @ split_dot m;
                       base = join_dot base_parts
                   in fold (relative_base_step base known_modules) names {})
              | None \<Rightarrow> fold (relative_bare_step anchor_parts known_modules) names {})"

text \<open>
  The search of \<^verbatim>\<open>_handle_ast_import\<close> for one alias:
  \<^verbatim>\<open>for i in range(len(name_parts), 0, -1)\<close>, leaving at the first candidate that
  is a key of the registry. The last argument is the current \<^verbatim>\<open>i\<close>.
\<close>

fun best_prefix :: "string list \<Rightarrow> (string, relpath) pydict \<Rightarrow> nat \<Rightarrow> string option" where
  "best_prefix name_parts known_modules 0 = None"
| "best_prefix name_parts known_modules (Suc i) =
     (let candidate = join_dot (take (Suc i) name_parts)
      in if py_in candidate known_modules then Some candidate
         else best_prefix name_parts known_modules i)"

text \<open>\<^verbatim>\<open>if best:\<close> is false for \<^verbatim>\<open>None\<close> and for the empty string.\<close>

definition import_alias_step :: "(string, relpath) pydict \<Rightarrow> string \<Rightarrow> string set \<Rightarrow> string set" where
  "import_alias_step known_modules alias_name imported =
     (let name_parts = split_dot alias_name
      in case best_prefix name_parts known_modules (length name_parts) of
           None \<Rightarrow> imported
         | Some best \<Rightarrow> if best \<noteq> [] then insert best imported else imported)"

definition handle_ast_import ::
  "string list \<Rightarrow> (string, relpath) pydict \<Rightarrow> string set \<Rightarrow> string set" where
  "handle_ast_import node_names known_modules imported =
     fold (import_alias_step known_modules) node_names imported"

definition absolute_step ::
  "string \<Rightarrow> (string, relpath) pydict \<Rightarrow> string \<Rightarrow> string set \<Rightarrow> string set" where
  "absolute_step module known_modules name imported =
     (let submod = module @ ''.'' @ name
      in if py_in submod known_modules then insert submod imported
         else if py_in module known_modules then insert module imported
         else imported)"

text \<open>\<^verbatim>\<open>level = node.level or 0\<close>: an absent level counts as 0.\<close>

definition handle_ast_import_from ::
  "int option \<Rightarrow> string option \<Rightarrow> string list \<Rightarrow> string \<Rightarrow> (string, relpath) pydict
     \<Rightarrow> string set \<Rightarrow> string set" where
  "handle_ast_import_from node_level node_module names current_module known_modules imported =
     (let level = (case node_level of None \<Rightarrow> 0 | Some l \<Rightarrow> l)
      in if level > 0
         then imported \<union> resolve_relative_import level node_module names current_module known_modules
         else case node_module of
                None \<Rightarrow> imported
              | Some module \<Rightarrow> fold (absolute_step module known_modules) names imported)"

definition import_node_step ::
  "string \<Rightarrow> (string, relpath) pydict \<Rightarrow> stmt \<Rightarrow> string set \<Rightarrow> string set" where
  "import_node_step current_module known_modules node imported =
     (case node of
        Import node_names \<Rightarrow> handle_ast_import node_names known_modules imported
      | ImportFrom node_level node_module names \<Rightarrow>
          handle_ast_import_from node_level node_module names current_module known_modules imported)"

definition parse_file_imports ::
  "source_tree \<Rightarrow> relpath \<Rightarrow> (string, relpath) pydict \<Rightarrow> string set" where
  "parse_file_imports t filepath known_modules =
     (case read_imports t filepath of
        None \<Rightarrow> {}
      | Some nodes \<Rightarrow>
          fold (import_node_step (file_to_module_name filepath) known_modules) nodes {})"

section \<open>Analysis\<close>

record metrics =
  module :: string
  rel_path :: string
  depth :: int
  import_count :: int
  importers :: "string list"
  score :: int

text \<open>
  The loop \<^verbatim>\<open>for mod in imported\<close> of \<^verbatim>\<open>analyze\<close> runs over a set, in no
  particular order; each round touches the entry of its own \<^verbatim>\<open>mod\<close> only, so the
  loop adds \<^verbatim>\<open>rel_path\<close> to the entry of every key that is in \<^verbatim>\<open>imported\<close> and
  is not \<^verbatim>\<open>current_module\<close>.
\<close>

definition add_importer ::
  "string set \<Rightarrow> string \<Rightarrow> string \<Rightarrow> (string, string set) pydict \<Rightarrow> (string, string set) pydict" where
  "add_importer imported current_module rel importer_index =
     map (\<lambda>(m, s). (m, if m \<in> imported \<and> m \<noteq> current_module then insert rel s else s))
       importer_index"

definition importer_step ::
  "source_tree \<Rightarrow> (string, relpath) pydict \<Rightarrow> relpath \<Rightarrow> (string, string set) pydict
     \<Rightarrow> (string, string set) pydict" where
  "importer_step t known_modules filepath importer_index =
     (let current_module = file_to_module_name filepath
      in if current_module = [] then importer_index
         else add_importer (parse_file_imports t filepath known_modules) current_module
                (rel_path_str filepath) importer_index)"

text \<open>The dictionary \<^verbatim>\<open>importers\<close> of \<^verbatim>\<open>analyze\<close> when its first loop has ended.\<close>

definition importer_index :: "source_tree \<Rightarrow> (string, string set) pydict" where
  "importer_index t =
     (let known_modules = build_module_registry t
      in fold (importer_step t known_modules) (collect_python_files t)
           (map (\<lambda>(m, p). (m, {})) known_modules))"

text \<open>The dictionary that the second loop of \<^verbatim>\<open>analyze\<close> appends for one module.\<close>

definition result_row :: "string \<Rightarrow> relpath \<Rightarrow> string set \<Rightarrow> metrics" where
  "result_row m filepath s =
     \<lparr> module = m,
       rel_path = rel_path_str filepath,
       depth = compute_depth filepath,
       import_count = int (card s),
       importers = sorted_list_of_set s,
       score = compute_depth filepath * int (card s) \<rparr>"

text \<open>
  The second loop of \<^verbatim>\<open>analyze\<close>, over \<^verbatim>\<open>known_modules.items()\<close>;
  \<^verbatim>\<open>importers[mod]\<close> raises \<^verbatim>\<open>KeyError\<close> on a missing key.
\<close>

fun build_results ::
  "(string, string set) pydict \<Rightarrow> (string, relpath) pydict \<Rightarrow> py_error + metrics list" where
  "build_results index [] = Inr []"
| "build_results index ((m, filepath) # items) =
     (case map_of index m of
        None \<Rightarrow> Inl KeyError
      | Some s \<Rightarrow>
          (case build_results index items of
             Inl e \<Rightarrow> Inl e
           | Inr results \<Rightarrow> Inr (result_row m filepath s # results)))"

definition analyze :: "source_tree \<Rightarrow> py_error + metrics list" where
  "analyze t = build_results (importer_index t) (build_module_registry t)"

section \<open>Query views\<close>

text \<open>The list \<^verbatim>\<open>dead\<close> of \<^verbatim>\<open>cmd_dead\<close> after its sort.\<close>

definition dead_rows :: "metrics list \<Rightarrow> metrics list" where
  "dead_rows results =
     sort_key (\<lambda>r. (- depth r, module r)) (filter (\<lambda>r. import_count r = 0) results)"

text \<open>The list \<^verbatim>\<open>cold\<close> of \<^verbatim>\<open>cmd_cold\<close> after its sort.\<close>

definition cold_rows :: "int \<Rightarrow> int \<Rightarrow> metrics list \<Rightarrow> metrics list" where
  "cold_rows max_imports min_depth results =
     sort_key (\<lambda>r. (import_count r, - depth r, module r))
       (filter (\<lambda>r. 1 \<le> import_count r \<and> import_count r \<le> max_imports \<and> depth r \<ge> min_depth)
          results)"

text \<open>What each command hands to its formatter: the first \<^verbatim>\<open>args.top\<close> rows.\<close>

definition cmd_dead :: "int \<Rightarrow> source_tree \<Rightarrow> py_error + metrics list" where
  "cmd_dead top_n t =
     (case analyze t of
        Inl e \<Rightarrow> Inl e
      | Inr results \<Rightarrow> Inr (py_slice_to (dead_rows results) top_n))"

definition cmd_cold :: "int \<Rightarrow> int \<Rightarrow> int \<Rightarrow> source_tree \<Rightarrow> py_error + metrics list" where
  "cmd_cold max_imports min_depth top_n t =
     (case analyze t of
        Inl e \<Rightarrow> Inl e
      | Inr results \<Rightarrow> Inr (py_slice_to (cold_rows max_imports min_depth results) top_n))"

text \<open>The default of \<^verbatim>\<open>--max-imports\<close>.\<close>

definition default_max_imports :: int where
  "default_max_imports = 3"

section \<open>Reference definitions and example trees\<close>

text \<open>
  Nothing in this section is code of \<^verbatim>\<open>main.py\<close>: the definitions name what the
  theorems below compare the code with, and the trees are concrete inputs.
\<close>

text \<open>
  The candidates of a direct import of \<open>n1.n2...nk\<close>, most specific first:
  \<open>n1...nk\<close>, \<open>n1...n(k-1)\<close>, ..., \<open>n1\<close>.
\<close>

definition prefix_candidates :: "string \<Rightarrow> string list" where
  "prefix_candidates dotted =
     map (\<lambda>i. join_dot (take i (split_dot dotted))) (rev [1..<Suc (length (split_dot dotted))])"

text \<open>
  A package \<^verbatim>\<open>pkg\<close> whose module \<^verbatim>\<open>b\<close> holds \<^verbatim>\<open>from .base import *\<close>.
\<close>

definition wildcard_tree :: source_tree where
  "wildcard_tree =
     \<lparr> rglob_py = [RelPath [''pkg''] ''b.py'', RelPath [''pkg''] ''base.py'',
                    RelPath [''pkg''] ''__init__.py''],
       read_imports = (\<lambda>p. if p = RelPath [''pkg''] ''b.py''
                            then Some [ImportFrom (Some 1) (Some ''base'') [''*'']]
                            else Some []) \<rparr>"

text \<open>
  A package directory without initializer that holds a file named \<^verbatim>\<open>*.py\<close>, and a
  module \<^verbatim>\<open>b\<close> that holds \<^verbatim>\<open>from . import *\<close>.
\<close>

definition star_tree :: source_tree where
  "star_tree =
     \<lparr> rglob_py = [RelPath [''pkg''] ''*.py'', RelPath [''pkg''] ''b.py''],
       read_imports = (\<lambda>p. if p = RelPath [''pkg''] ''b.py''
                            then Some [ImportFrom (Some 1) None [''*'']]
                            else Some []) \<rparr>"

text \<open>
  The root-relative paths of the files that have a non-empty module name other than \<open>m\<close>
  and whose resolved imports contain \<open>m\<close>.
\<close>

definition importer_paths :: "source_tree \<Rightarrow> string \<Rightarrow> string set" where
  "importer_paths t m =
     set (map rel_path_str
       (filter (\<lambda>p. file_to_module_name p \<noteq> [] \<and> file_to_module_name p \<noteq> m \<and>
                     m \<in> parse_file_imports t p (build_module_registry t))
          (rglob_py t)))"

text \<open>No part of a path of the file system contains the separator.\<close>

definition slash_free :: "relpath \<Rightarrow> bool" where
  "slash_free p = (\<forall>s\<in>set (parts p). CHR ''/'' \<notin> set s)"

text \<open>
  The reading of "the distinct other files whose resolved dependency set contains \<open>m\<close>" that
  takes every file but the one registered for \<open>m\<close>, by root-relative path.
\<close>

definition claimed_importer_paths :: "source_tree \<Rightarrow> string \<Rightarrow> string set" where
  "claimed_importer_paths t m =
     set (map rel_path_str
       (filter (\<lambda>p. map_of (build_module_registry t) m \<noteq> Some p \<and>
                     m \<in> parse_file_imports t p (build_module_registry t))
          (rglob_py t)))"

text \<open>
  A root with its own \<^verbatim>\<open>__init__.py\<close> next to the modules \<^verbatim>\<open>a\<close> and \<^verbatim>\<open>b\<close>; the
  initializer and \<^verbatim>\<open>b\<close> both hold \<^verbatim>\<open>import a\<close>.
\<close>

definition root_init_tree :: source_tree where
  "root_init_tree =
     \<lparr> rglob_py = [RelPath [] ''__init__.py'', RelPath [] ''a.py'', RelPath [] ''b.py''],
       read_imports = (\<lambda>p. if p = RelPath [] ''a.py'' then Some []
                            else Some [Import [''a'']]) \<rparr>"

text \<open>The files \<^verbatim>\<open>pkg.py\<close> and \<^verbatim>\<open>pkg/__init__.py\<close> side by side.\<close>

definition collision_tree :: source_tree where
  "collision_tree =
     \<lparr> rglob_py = [RelPath [] ''pkg.py'', RelPath [''pkg''] ''__init__.py''],
       read_imports = (\<lambda>p. Some []) \<rparr>"

text \<open>A root initializer, a root module, a package and a module inside it.\<close>

definition depth_tree :: source_tree where
  "depth_tree =
     \<lparr> rglob_py = [RelPath [] ''__init__.py'', RelPath [] ''top.py'',
                    RelPath [''pkg''] ''__init__.py'', RelPath [''pkg''] ''a.py''],
       read_imports = (\<lambda>p. Some []) \<rparr>"

text \<open>
  A root module and three modules below \<^verbatim>\<open>a\<close>, at depth 1 and at depth 3;
  \<^verbatim>\<open>top.py\<close> holds \<^verbatim>\<open>import a.z\<close> and \<^verbatim>\<open>a/x.py\<close> holds \<^verbatim>\<open>from . import z\<close>.
\<close>

definition views_tree :: source_tree where
  "views_tree =
     \<lparr> rglob_py = [RelPath [] ''top.py'', RelPath [''a''] ''x.py'', RelPath [''a''] ''z.py'',
                    RelPath [''a'', ''b'', ''c''] ''y.py''],
       read_imports = (\<lambda>p. if p = RelPath [] ''top.py'' then Some [Import [''a.z'']]
                            else if p = RelPath [''a''] ''x.py''
                            then Some [ImportFrom (Some 1) None [''z'']]
                            else Some []) \<rparr>"

text \<open>The rows of the analysis of \<^const>\<open>views_tree\<close>.\<close>

definition views_tree_metrics :: "metrics list" where
  "views_tree_metrics =
     [\<lparr> module = ''a.b.c.y'', rel_path = ''a/b/c/y.py'', depth = 3, import_count = 0,
         importers = [], score = 0 \<rparr>,
      \<lparr> module = ''a.x'', rel_path = ''a/x.py'', depth = 1, import_count = 0,
         importers = [], score = 0 \<rparr>,
      \<lparr> module = ''a.z'', rel_path = ''a/z.py'', depth = 1, import_count = 2,
         importers = [''a/x.py'', ''top.py''], score = 2 \<rparr>,
      \<lparr> module = ''top'', rel_path = ''top.py'', depth = 0, import_count = 0,
         importers = [], score = 0 \<rparr>]"


section \<open>Properties of import resolution\<close>

subsection \<open>Loops that only add to a set\<close>

lemma fold_union_step:
  assumes "\<And>n R. f n R = R \<union> g n"
  shows "fold f names R0 = R0 \<union> (\<Union>n\<in>set names. g n)"
  using assms by (induction names arbitrary: R0) auto

lemma if_insert_union:
  "(if P then insert c R else if Q then insert d R else R) =
     R \<union> (if P then {c} else if Q then {d} else {})"
  by (cases P; cases Q; simp)

lemma relative_base_step_union:
  "relative_base_step base known n R =
     R \<union> (if n \<noteq> ''*'' \<and> py_in (base @ ''.'' @ n) known then {base @ ''.'' @ n}
          else if py_in base known then {base} else {})"
  unfolding relative_base_step_def by (rule if_insert_union)

lemma relative_bare_step_union:
  "relative_bare_step anchor known n R =
     R \<union> (if py_in (join_dot (anchor @ [n])) known then {join_dot (anchor @ [n])} else {})"
  unfolding relative_bare_step_def Let_def
  by (cases "py_in (join_dot (anchor @ [n])) known"; simp)

lemma absolute_step_union:
  "absolute_step base known n R =
     R \<union> (if py_in (base @ ''.'' @ n) known then {base @ ''.'' @ n}
          else if py_in base known then {base} else {})"
  unfolding absolute_step_def Let_def by (rule if_insert_union)

lemma fold_relative_base_step:
  "fold (relative_base_step base known) names R0 =
     R0 \<union> (\<Union>n\<in>set names.
            if n \<noteq> ''*'' \<and> py_in (base @ ''.'' @ n) known then {base @ ''.'' @ n}
            else if py_in base known then {base} else {})"
  by (rule fold_union_step) (rule relative_base_step_union)

lemma fold_relative_bare_step:
  "fold (relative_bare_step anchor known) names R0 =
     R0 \<union> (\<Union>n\<in>set names.
            if py_in (join_dot (anchor @ [n])) known then {join_dot (anchor @ [n])} else {})"
  by (rule fold_union_step) (rule relative_bare_step_union)

lemma fold_absolute_step:
  "fold (absolute_step base known) names R0 =
     R0 \<union> (\<Union>n\<in>set names.
            if py_in (base @ ''.'' @ n) known then {base @ ''.'' @ n}
            else if py_in base known then {base} else {})"
  by (rule fold_union_step) (rule absolute_step_union)

lemma py_slice_to_neg:
  assumes "1 \<le> l" and "l \<le> int (length xs)"
  shows "py_slice_to xs (- l) = take (length xs - nat l) xs"
proof -
  have "nat (int (length xs) - l) = length xs - nat l"
    using assms by linarith
  with assms show ?thesis by (simp add: py_slice_to_def)
qed

lemma resolve_relative_too_deep:
  "int (length (split_dot cur)) < level \<Longrightarrow>
     resolve_relative_import level bm names cur known = {}"
  by (simp add: resolve_relative_import_def Let_def)

lemma resolve_relative_base:
  assumes "level \<le> int (length (split_dot cur))"
  shows "resolve_relative_import level (Some m) names cur known =
     (\<Union>n\<in>set names.
        if n \<noteq> ''*'' \<and> py_in (join_dot (py_slice_to (split_dot cur) (- level) @ split_dot m) @ ''.'' @ n) known
        then {join_dot (py_slice_to (split_dot cur) (- level) @ split_dot m) @ ''.'' @ n}
        else if py_in (join_dot (py_slice_to (split_dot cur) (- level) @ split_dot m)) known
        then {join_dot (py_slice_to (split_dot cur) (- level) @ split_dot m)} else {})"
  using assms by (simp add: resolve_relative_import_def Let_def fold_relative_base_step)

lemma resolve_relative_bare:
  assumes "level \<le> int (length (split_dot cur))"
  shows "resolve_relative_import level None names cur known =
     (\<Union>n\<in>set names.
        if py_in (join_dot (py_slice_to (split_dot cur) (- level) @ [n])) known
        then {join_dot (py_slice_to (split_dot cur) (- level) @ [n])} else {})"
  using assms by (simp add: resolve_relative_import_def Let_def fold_relative_bare_step)


lemma resolve_relative_subset:
  "resolve_relative_import level bm names cur known \<subseteq> set (map fst known)"
proof (cases "int (length (split_dot cur)) < level")
  case True
  then show ?thesis by (simp add: resolve_relative_too_deep)
next
  case False
  then have le: "level \<le> int (length (split_dot cur))" by simp
  show ?thesis
  proof (cases bm)
    case None
    show ?thesis
      unfolding None resolve_relative_bare [OF le]
      by (auto simp: py_in_def split: if_splits)
  next
    case (Some m)
    show ?thesis
      unfolding Some resolve_relative_base [OF le]
      by (auto simp: py_in_def split: if_splits)
  qed
qed

lemma handle_from_relative:
  "0 < l \<Longrightarrow> handle_ast_import_from (Some l) bm names cur known imported =
     imported \<union> resolve_relative_import l bm names cur known"
  by (simp add: handle_ast_import_from_def)

lemma handle_from_absolute_none:
  "nl = None \<or> nl = Some l \<and> l \<le> 0 \<Longrightarrow>
     handle_ast_import_from nl None names cur known imported = imported"
  by (auto simp: handle_ast_import_from_def)

lemma handle_from_absolute_some:
  "nl = None \<or> nl = Some l \<and> l \<le> 0 \<Longrightarrow>
     handle_ast_import_from nl (Some base) names cur known imported =
       imported \<union> (\<Union>n\<in>set names.
            if py_in (base @ ''.'' @ n) known then {base @ ''.'' @ n}
            else if py_in base known then {base} else {})"
  by (cases nl) (simp_all add: handle_ast_import_from_def fold_absolute_step)

lemma handle_from_subset:
  "handle_ast_import_from nl bm names cur known imported \<subseteq> imported \<union> set (map fst known)"
proof (cases "\<exists>l. nl = Some l \<and> 0 < l")
  case True
  then obtain l where l: "nl = Some l" "0 < l" by blast
  show ?thesis
    unfolding l(1) handle_from_relative [OF l(2)]
    using resolve_relative_subset [of l bm names cur known] by blast
next
  case False
  then have a: "nl = None \<or> nl = Some (case nl of Some l \<Rightarrow> l | None \<Rightarrow> 0) \<and> (case nl of Some l \<Rightarrow> l | None \<Rightarrow> 0) \<le> 0"
    by (cases nl) auto
  show ?thesis
  proof (cases bm)
    case None
    show ?thesis unfolding None handle_from_absolute_none [OF a] by blast
  next
    case (Some base)
    show ?thesis unfolding Some handle_from_absolute_some [OF a]
      by (auto simp: py_in_def split: if_splits)
  qed
qed




lemmas eval_defs =
  collect_python_files_def parts_def build_module_registry_def registry_step_def
  file_to_module_name_def py_slice_to_def join_dot_def split_dot_def py_in_def
  resolve_relative_import_def relative_base_step_def relative_bare_step_def Let_def

lemma UN_const_singleton: "A \<noteq> {} \<Longrightarrow> (\<Union>n\<in>A. {b}) = {b}"
  by blast


subsection \<open>Direct imports\<close>

lemma best_prefix_find:
  "best_prefix ps known i =
     find (\<lambda>c. py_in c known) (map (\<lambda>j. join_dot (take j ps)) (rev [1..<Suc i]))"
  by (induction i) (simp_all add: Let_def)

lemma import_alias_step_find:
  assumes "\<not> py_in [] known"
  shows "import_alias_step known dotted imported =
     (case find (\<lambda>c. py_in c known) (prefix_candidates dotted) of
        None \<Rightarrow> imported | Some c \<Rightarrow> insert c imported)"
proof (cases "find (\<lambda>c. py_in c known) (prefix_candidates dotted)")
  case None
  then show ?thesis
    by (simp add: import_alias_step_def Let_def best_prefix_find prefix_candidates_def)
next
  case (Some c)
  then have "py_in c known" by (auto simp: find_Some_iff)
  with assms have "c \<noteq> []" by auto
  with Some show ?thesis
    by (simp add: import_alias_step_def Let_def best_prefix_find prefix_candidates_def)
qed

lemma import_alias_step_union:
  assumes "\<not> py_in [] known"
  shows "import_alias_step known dotted imported =
     imported \<union> set_option (find (\<lambda>c. py_in c known) (prefix_candidates dotted))"
  unfolding import_alias_step_find [OF assms]
  by (cases "find (\<lambda>c. py_in c known) (prefix_candidates dotted)") simp_all

lemma handle_ast_import_union:
  assumes "\<not> py_in [] known"
  shows "handle_ast_import node_names known imported =
     imported \<union> (\<Union>n\<in>set node_names. set_option (find (\<lambda>c. py_in c known) (prefix_candidates n)))"
  unfolding handle_ast_import_def
  by (rule fold_union_step) (rule import_alias_step_union [OF assms])

lemma best_prefix_miss:
  "(\<And>j. 1 \<le> j \<Longrightarrow> j \<le> n \<Longrightarrow> \<not> py_in (join_dot (take j ps)) known) \<Longrightarrow>
     best_prefix ps known n = None"
  by (induction n) (simp_all add: Let_def)

lemma best_prefix_hit:
  assumes "1 \<le> i" and "i \<le> n" and "py_in (join_dot (take i ps)) known"
    and "\<And>j. i < j \<Longrightarrow> j \<le> n \<Longrightarrow> \<not> py_in (join_dot (take j ps)) known"
  shows "best_prefix ps known n = Some (join_dot (take i ps))"
  using assms(2,4)
proof (induction n)
  case 0
  with assms(1) show ?case by simp
next
  case (Suc n)
  show ?case
  proof (cases "i = Suc n")
    case True
    with assms(3) show ?thesis by (simp add: Let_def)
  next
    case False
    with Suc.prems(1) have le: "i \<le> n" by simp
    from False Suc.prems have "\<not> py_in (join_dot (take (Suc n) ps)) known" by simp
    moreover have "best_prefix ps known n = Some (join_dot (take i ps))"
      using le Suc.prems(2) by (intro Suc.IH) simp_all
    ultimately show ?thesis by (simp add: Let_def)
  qed
qed

lemma handle_ast_import_single:
  "handle_ast_import [dotted] known imported = import_alias_step known dotted imported"
  by (simp add: handle_ast_import_def)

section \<open>Properties of the registry and of the analysis\<close>

subsection \<open>Dictionaries\<close>

lemma dict_set_keys:
  "map fst (dict_set d k v) = (if k \<in> fst ` set d then map fst d else map fst d @ [k])"
  by (induction d) (auto simp: rev_image_eqI)

lemma dict_set_key_set: "fst ` set (dict_set d k v) = insert k (fst ` set d)"
  using dict_set_keys [of d k v, THEN arg_cong, of set] by (auto split: if_splits)

lemma dict_set_distinct: "distinct (map fst d) \<Longrightarrow> distinct (map fst (dict_set d k v))"
  by (simp add: dict_set_keys)

lemma map_of_dict_set: "map_of (dict_set d k v) = (map_of d)(k \<mapsto> v)"
  by (induction d) (auto simp: fun_eq_iff)

subsection \<open>The registry\<close>

lemma registry_step_keys:
  "set (map fst (registry_step p reg)) =
     set (map fst reg) \<union> (if file_to_module_name p \<noteq> [] then {file_to_module_name p} else {})"
  by (simp add: registry_step_def Let_def dict_set_key_set)

lemma registry_step_distinct:
  "distinct (map fst reg) \<Longrightarrow> distinct (map fst (registry_step p reg))"
  by (simp add: registry_step_def Let_def dict_set_distinct)

lemma registry_step_lookup:
  "map_of (registry_step p reg) n =
     (if file_to_module_name p = n \<and> n \<noteq> [] then Some p else map_of reg n)"
  by (simp add: registry_step_def Let_def map_of_dict_set)

lemma registry_fold_keys:
  "set (map fst (fold registry_step fs reg)) =
     set (map fst reg) \<union> {n. n \<noteq> [] \<and> (\<exists>p\<in>set fs. file_to_module_name p = n)}"
proof (induction fs arbitrary: reg)
  case Nil
  show ?case by simp
next
  case (Cons p fs)
  show ?case
    unfolding fold_simps Cons.IH registry_step_keys by auto
qed

lemma registry_fold_distinct:
  "distinct (map fst reg) \<Longrightarrow> distinct (map fst (fold registry_step fs reg))"
  by (induction fs arbitrary: reg) (simp_all add: registry_step_distinct)

lemma registry_fold_lookup:
  "map_of (fold registry_step fs reg) n =
     (if n \<noteq> [] \<and> (\<exists>p\<in>set fs. file_to_module_name p = n)
      then Some (last (filter (\<lambda>p. file_to_module_name p = n) fs))
      else map_of reg n)"
proof (induction fs arbitrary: reg)
  case Nil
  show ?case by simp
next
  case (Cons p fs)
  show ?case
  proof (cases "\<exists>q\<in>set fs. file_to_module_name q = n")
    case True
    then have "filter (\<lambda>p. file_to_module_name p = n) fs \<noteq> []"
      by (simp add: filter_empty_conv)
    with True show ?thesis
      unfolding fold_simps Cons.IH by (auto simp: registry_step_lookup)
  next
    case False
    then have "filter (\<lambda>p. file_to_module_name p = n) fs = []"
      by (simp add: filter_empty_conv)
    with False show ?thesis
      unfolding fold_simps Cons.IH registry_step_lookup by simp
  qed
qed

lemma registry_keys:
  "set (map fst (build_module_registry t)) =
     {n. n \<noteq> [] \<and> (\<exists>p\<in>set (rglob_py t). file_to_module_name p = n)}"
  using registry_fold_keys [of "collect_python_files t" "[]"]
  by (simp add: build_module_registry_def collect_python_files_def)

lemma registry_no_empty_name: "\<not> py_in [] (build_module_registry t)"
  by (simp add: py_in_def registry_keys del: set_map)

lemma registry_distinct: "distinct (map fst (build_module_registry t))"
  by (simp add: build_module_registry_def registry_fold_distinct)

lemma registry_lookup:
  "map_of (build_module_registry t) n =
     (if n \<noteq> [] \<and> (\<exists>p\<in>set (rglob_py t). file_to_module_name p = n)
      then Some (last (filter (\<lambda>p. file_to_module_name p = n) (collect_python_files t)))
      else None)"
  by (simp add: build_module_registry_def registry_fold_lookup collect_python_files_def)

lemma sorted_le_last: "sorted xs \<Longrightarrow> x \<in> set xs \<Longrightarrow> x \<le> last xs"
  by (induction xs) auto

lemma sorted_filter_last:
  assumes "sorted (map f xs)" and "x \<in> set xs" and "P x"
  shows "f x \<le> f (last (filter P xs))"
proof -
  have ne: "filter P xs \<noteq> []" using assms(2,3) by (auto simp: filter_empty_conv)
  have "sorted (map f (filter P xs))" using assms(1) by (rule sorted_filter)
  moreover have "f x \<in> set (map f (filter P xs))" using assms(2,3) by simp
  ultimately have "f x \<le> last (map f (filter P xs))" by (rule sorted_le_last)
  with ne show ?thesis by (simp add: last_map)
qed

lemma registry_value:
  assumes "map_of (build_module_registry t) n = Some q"
  shows "q \<in> set (rglob_py t) \<and> file_to_module_name q = n \<and> n \<noteq> [] \<and>
         (\<forall>p\<in>set (rglob_py t). file_to_module_name p = n \<longrightarrow> parts p \<le> parts q)"
proof -
  let ?fs = "collect_python_files t"
  let ?P = "\<lambda>p. file_to_module_name p = n"
  from assms have c: "n \<noteq> []" "\<exists>p\<in>set (rglob_py t). ?P p" and q: "q = last (filter ?P ?fs)"
    by (auto simp: registry_lookup split: if_splits)
  have s: "set ?fs = set (rglob_py t)" by (simp add: collect_python_files_def)
  from c(2) s have ne: "filter ?P ?fs \<noteq> []" by (auto simp: filter_empty_conv)
  then have "last (filter ?P ?fs) \<in> set (filter ?P ?fs)" by (rule last_in_set)
  with q s have m: "q \<in> set (rglob_py t)" "?P q" by auto
  have srt: "sorted (map parts ?fs)" by (simp add: collect_python_files_def)
  have "parts p \<le> parts q" if "p \<in> set (rglob_py t)" "?P p" for p
    unfolding q using srt that s by (intro sorted_filter_last) auto
  with m c(1) show ?thesis by blast
qed

subsection \<open>Resolved names are keys of the registry\<close>

lemma best_prefix_known: "best_prefix ps known i = Some c \<Longrightarrow> py_in c known"
  by (induction i) (auto simp: Let_def split: if_splits)

lemma import_alias_step_subset:
  "import_alias_step known dotted imported \<subseteq> imported \<union> set (map fst known)"
proof (cases "best_prefix (split_dot dotted) known (length (split_dot dotted))")
  case None
  then show ?thesis by (simp add: import_alias_step_def Let_def)
next
  case (Some c)
  then have "py_in c known" by (rule best_prefix_known)
  then have "c \<in> set (map fst known)" by (simp add: py_in_def)
  with Some show ?thesis by (auto simp: import_alias_step_def Let_def)
qed

lemma handle_ast_import_subset:
  "handle_ast_import node_names known imported \<subseteq> imported \<union> set (map fst known)"
  unfolding handle_ast_import_def
proof (induction node_names arbitrary: imported)
  case Nil
  show ?case by simp
next
  case (Cons n ns)
  have "fold (import_alias_step known) ns (import_alias_step known n imported)
      \<subseteq> import_alias_step known n imported \<union> set (map fst known)"
    by (rule Cons.IH)
  with import_alias_step_subset [of known n imported] show ?case by auto
qed

lemma import_node_step_subset:
  "import_node_step cm known node imported \<subseteq> imported \<union> set (map fst known)"
  by (cases node)
    (simp_all add: import_node_step_def handle_ast_import_subset handle_from_subset del: set_map)

lemma parse_file_imports_subset:
  "parse_file_imports t p known \<subseteq> set (map fst known)"
proof (cases "read_imports t p")
  case None
  then show ?thesis by (simp add: parse_file_imports_def)
next
  case (Some nodes)
  have "fold (import_node_step cm known) nodes imported \<subseteq> imported \<union> set (map fst known)"
    for cm imported
  proof (induction nodes arbitrary: imported)
    case Nil
    show ?case by simp
  next
    case (Cons n ns)
    have "fold (import_node_step cm known) ns (import_node_step cm known n imported)
        \<subseteq> import_node_step cm known n imported \<union> set (map fst known)"
      by (rule Cons.IH)
    with import_node_step_subset [of cm known n imported] show ?case by auto
  qed
  from this [of "file_to_module_name p" "{}"] Some show ?thesis
    by (simp add: parse_file_imports_def)
qed

subsection \<open>The importer index\<close>

lemma add_importer_keys: "map fst (add_importer imported cm rel idx) = map fst idx"
  by (simp add: add_importer_def split_def comp_def)

lemma importer_step_keys: "map fst (importer_step t known p idx) = map fst idx"
  by (simp add: importer_step_def Let_def add_importer_keys)

lemma importer_step_union:
  "importer_step t known p idx =
     map (\<lambda>(m, s). (m, s \<union> (if file_to_module_name p \<noteq> [] \<and>
                                 m \<in> parse_file_imports t p known \<and>
                                 m \<noteq> file_to_module_name p
                              then {rel_path_str p} else {}))) idx"
  by (simp add: importer_step_def Let_def add_importer_def split_def)

lemma importer_fold:
  "fold (importer_step t known) fs idx =
     map (\<lambda>(m, s). (m, s \<union> {rel_path_str p | p. p \<in> set fs \<and> file_to_module_name p \<noteq> [] \<and>
                                 m \<in> parse_file_imports t p known \<and>
                                 m \<noteq> file_to_module_name p})) idx"
proof (induction fs arbitrary: idx)
  case Nil
  show ?case by (simp add: split_def)
next
  case (Cons p fs)
  have "fold (importer_step t known) (p # fs) idx =
      fold (importer_step t known) fs (importer_step t known p idx)"
    by simp
  also have "\<dots> = map (\<lambda>(m, s). (m, s \<union> {rel_path_str p | p. p \<in> set fs \<and>
      file_to_module_name p \<noteq> [] \<and> m \<in> parse_file_imports t p known \<and>
      m \<noteq> file_to_module_name p})) (importer_step t known p idx)"
    by (rule Cons.IH)
  also have "\<dots> = map (\<lambda>(m, s). (m, s \<union> {rel_path_str q | q. q \<in> set (p # fs) \<and>
      file_to_module_name q \<noteq> [] \<and> m \<in> parse_file_imports t q known \<and>
      m \<noteq> file_to_module_name q})) idx"
    unfolding importer_step_union by (auto simp: split_def)
  finally show ?case .
qed

lemma importer_index_eq:
  "importer_index t =
     map (\<lambda>(m, q). (m, {rel_path_str p | p. p \<in> set (rglob_py t) \<and>
                            file_to_module_name p \<noteq> [] \<and>
                            m \<in> parse_file_imports t p (build_module_registry t) \<and>
                            m \<noteq> file_to_module_name p}))
       (build_module_registry t)"
  by (simp add: importer_index_def Let_def importer_fold split_def comp_def
      collect_python_files_def)

lemma importer_index_keys:
  "map fst (importer_index t) = map fst (build_module_registry t)"
  by (simp add: importer_index_eq split_def comp_def)

lemma map_of_map_key:
  "map_of (map (\<lambda>(m, q). (m, f m)) d) m = (if m \<in> fst ` set d then Some (f m) else None)"
  by (induction d) (auto simp: rev_image_eqI)

lemma importer_index_lookup:
  "map_of (importer_index t) m =
     (if py_in m (build_module_registry t)
      then Some {rel_path_str p | p. p \<in> set (rglob_py t) \<and>
                            file_to_module_name p \<noteq> [] \<and>
                            m \<in> parse_file_imports t p (build_module_registry t) \<and>
                            m \<noteq> file_to_module_name p}
      else None)"
  unfolding importer_index_eq map_of_map_key py_in_def by simp

subsection \<open>The result rows\<close>

lemma build_results_eq:
  assumes "\<And>m. m \<in> fst ` set items \<Longrightarrow> map_of idx m = Some (f m)"
  shows "build_results idx items = Inr (map (\<lambda>(m, q). result_row m q (f m)) items)"
  using assms
proof (induction items)
  case Nil
  show ?case by simp
next
  case (Cons a items)
  obtain m q where a: "a = (m, q)" by (cases a)
  have "map_of idx m = Some (f m)" using Cons.prems a by simp
  moreover have "build_results idx items = Inr (map (\<lambda>(m, q). result_row m q (f m)) items)"
    using Cons.prems by (intro Cons.IH) simp
  ultimately show ?case by (simp add: a)
qed

lemma importer_paths_finite: "finite (importer_paths t m)"
  by (simp add: importer_paths_def)

lemma analyze_eq:
  "analyze t =
     Inr (map (\<lambda>(m, q). result_row m q (importer_paths t m)) (build_module_registry t))"
  unfolding analyze_def
proof (rule build_results_eq)
  fix m
  assume "m \<in> fst ` set (build_module_registry t)"
  then have "py_in m (build_module_registry t)" by (simp add: py_in_def)
  then show "map_of (importer_index t) m = Some (importer_paths t m)"
    unfolding importer_index_lookup importer_paths_def by (auto intro: arg_cong [where f = Some])
qed

lemma analyze_modules:
  "analyze t = Inr rows \<Longrightarrow> map module rows = map fst (build_module_registry t)"
  by (auto simp: analyze_eq result_row_def split_def comp_def)

lemma analyze_row:
  assumes "analyze t = Inr rows" and "r \<in> set rows"
  shows "\<exists>q. (module r, q) \<in> set (build_module_registry t) \<and>
              r = result_row (module r) q (importer_paths t (module r))"
proof -
  from assms obtain m q where mq: "(m, q) \<in> set (build_module_registry t)"
    and r: "r = result_row m q (importer_paths t m)"
    by (auto simp: analyze_eq)
  from r have "module r = m" by (simp add: result_row_def)
  with mq r show ?thesis by auto
qed

subsection \<open>Joining and splitting\<close>

lemma split_on_not_Nil: "split_on c s \<noteq> []"
  by (cases s) auto

lemma split_on_no_sep: "c \<notin> set x \<Longrightarrow> split_on c x = [x]"
  by (induction x) auto

lemma split_on_append: "c \<notin> set x \<Longrightarrow> split_on c (x @ c # s) = x # split_on c s"
  by (induction x) auto

lemma join_split: "join_with [c] (split_on c s) = s"
proof (induction s)
  case Nil
  show ?case by simp
next
  case (Cons x s)
  obtain w ws where w: "split_on c s = w # ws"
    using split_on_not_Nil [of c s] by (cases "split_on c s") auto
  with Cons show ?case by (cases ws) auto
qed

lemma split_join:
  "xs \<noteq> [] \<Longrightarrow> \<forall>x\<in>set xs. c \<notin> set x \<Longrightarrow> split_on c (join_with [c] xs) = xs"
proof (induction xs)
  case Nil
  then show ?case by simp
next
  case (Cons x xs)
  show ?case
  proof (cases xs)
    case Nil
    with Cons.prems show ?thesis by (simp add: split_on_no_sep)
  next
    case (Cons y ys)
    with Cons.IH Cons.prems have "split_on c (join_with [c] (y # ys)) = y # ys" by simp
    moreover have "c \<notin> set x" using Cons.prems by simp
    ultimately show ?thesis unfolding Cons by (simp add: split_on_append)
  qed
qed

lemma join_has_sep: "2 \<le> length xs \<Longrightarrow> c \<in> set (join_with [c] xs)"
proof (cases xs)
  case Nil
  then show "2 \<le> length xs \<Longrightarrow> ?thesis" by simp
next
  case (Cons x ys)
  assume "2 \<le> length xs"
  with Cons obtain y zs where "ys = y # zs" by (cases ys) auto
  with Cons show ?thesis by simp
qed

lemma parts_inject: "parts p = parts q \<Longrightarrow> p = q"
  by (cases p; cases q) (simp add: parts_def)

lemma split_rel_path_str: "slash_free p \<Longrightarrow> split_on (CHR ''/'') (rel_path_str p) = parts p"
  unfolding rel_path_str_def slash_free_def
  by (rule split_join) (simp_all add: parts_def)

lemma rel_path_str_inject:
  assumes "slash_free p" and "slash_free q" and "rel_path_str p = rel_path_str q"
  shows "p = q"
proof -
  have "parts p = split_on (CHR ''/'') (rel_path_str p)"
    using assms(1) by (simp add: split_rel_path_str)
  also have "\<dots> = parts q"
    using assms(2,3) by (simp add: split_rel_path_str)
  finally show ?thesis by (rule parts_inject)
qed

lemma root_init_name: "file_to_module_name (RelPath [] ''__init__.py'') = []"
  by (simp add: file_to_module_name_def)

lemma rel_path_str_root_init:
  assumes "rel_path_str p = ''__init__.py''"
  shows "p = RelPath [] ''__init__.py''"
proof (cases "dirs p = []")
  case True
  with assms show ?thesis by (cases p) (simp add: rel_path_str_def parts_def)
next
  case False
  then have "2 \<le> length (parts p)" by (cases "dirs p") (simp_all add: parts_def)
  then have "CHR ''/'' \<in> set (join_with ''/'' (parts p))" by (rule join_has_sep)
  with assms show ?thesis by (simp add: rel_path_str_def)
qed

subsection \<open>Entries of the registry and of the index\<close>

lemma registry_entry:
  assumes "(n, q) \<in> set (build_module_registry t)"
  shows "map_of (build_module_registry t) n = Some q"
  using registry_distinct assms by (rule map_of_is_SomeI)

lemma py_slice_to_strip: "py_slice_to (stem @ ''.py'') (- 3) = stem"
  by (simp add: py_slice_to_def)

lemma registry_read_update:
  "build_module_registry (t\<lparr>read_imports := r\<rparr>) = build_module_registry t"
  by (simp add: build_module_registry_def collect_python_files_def)

lemma parse_file_imports_update:
  "p \<noteq> q \<Longrightarrow>
     parse_file_imports (t\<lparr>read_imports := (read_imports t)(q := c)\<rparr>) p known =
       parse_file_imports t p known"
  by (simp add: parse_file_imports_def)

lemma importer_step_update:
  assumes "file_to_module_name q = []"
  shows "importer_step (t\<lparr>read_imports := (read_imports t)(q := c)\<rparr>) known p idx =
     importer_step t known p idx"
proof (cases "file_to_module_name p = []")
  case True
  then show ?thesis by (simp add: importer_step_def)
next
  case False
  with assms have "p \<noteq> q" by auto
  then show ?thesis by (simp add: importer_step_def Let_def parse_file_imports_update)
qed

lemma importer_index_update:
  assumes "file_to_module_name q = []"
  shows "importer_index (t\<lparr>read_imports := (read_imports t)(q := c)\<rparr>) = importer_index t"
proof -
  have "importer_step (t\<lparr>read_imports := (read_imports t)(q := c)\<rparr>) known =
      importer_step t known" for known
    by (intro ext) (rule importer_step_update [OF assms])
  then show ?thesis
    by (simp add: importer_index_def registry_read_update collect_python_files_def)
qed

lemma importer_index_entry:
  assumes "(m, s) \<in> set (importer_index t)"
  shows "s = {rel_path_str p | p. p \<in> set (rglob_py t) \<and> file_to_module_name p \<noteq> [] \<and>
                m \<in> parse_file_imports t p (build_module_registry t) \<and>
                m \<noteq> file_to_module_name p}"
  using assms unfolding importer_index_eq by auto

lemmas eval_more =
  analyze_def importer_index_def importer_step_def add_importer_def parse_file_imports_def
  import_node_step_def handle_ast_import_def import_alias_step_def
  handle_ast_import_from_def absolute_step_def
  result_row_def compute_depth_def rel_path_str_def


section \<open>Properties of the views\<close>

lemma dead_rows_set: "set (dead_rows results) = {r \<in> set results. import_count r = 0}"
  by (simp add: dead_rows_def)

lemma cold_rows_set:
  "set (cold_rows max_imports min_depth results) =
     {r \<in> set results. 1 \<le> import_count r \<and> import_count r \<le> max_imports \<and> min_depth \<le> depth r}"
  by (simp add: cold_rows_def)

lemma dead_rows_sorted: "sorted (map (\<lambda>r. (- depth r, module r)) (dead_rows results))"
  by (simp add: dead_rows_def)

lemma dead_rows_order:
  assumes "i < length (dead_rows results)" and "j < length (dead_rows results)"
    and "depth (dead_rows results ! j) < depth (dead_rows results ! i)"
  shows "i < j"
proof (rule ccontr)
  let ?key = "\<lambda>r. (- depth r, module r)"
  assume "\<not> i < j"
  then have "j \<le> i" by simp
  with dead_rows_sorted [of results] assms(1)
  have "map ?key (dead_rows results) ! j \<le> map ?key (dead_rows results) ! i"
    by (simp add: sorted_iff_nth_mono del: map_map)
  with assms(1,2) have "?key (dead_rows results ! j) \<le> ?key (dead_rows results ! i)"
    by simp
  then have "depth (dead_rows results ! i) \<le> depth (dead_rows results ! j)"
    by (auto simp: less_eq_prod_simp)
  with assms(3) show False by simp
qed

lemma dead_rows_tie:
  assumes "i < j" and "j < length (dead_rows results)"
    and "depth (dead_rows results ! i) = depth (dead_rows results ! j)"
  shows "module (dead_rows results ! i) \<le> module (dead_rows results ! j)"
proof -
  let ?key = "\<lambda>r. (- depth r, module r)"
  from dead_rows_sorted [of results] assms(1,2)
  have "map ?key (dead_rows results) ! i \<le> map ?key (dead_rows results) ! j"
    by (simp add: sorted_iff_nth_mono del: map_map)
  with assms(1,2) have "?key (dead_rows results ! i) \<le> ?key (dead_rows results ! j)"
    by simp
  with assms(3) show ?thesis by (auto simp: less_eq_prod_simp)
qed

lemma dead_cold_modules_disjoint:
  assumes "distinct (map module results)"
  shows "module ` set (dead_rows results) \<inter> module ` set (cold_rows max_imports min_depth results) = {}"
proof (rule ccontr)
  assume "\<not> ?thesis"
  then obtain r1 r2 where r1: "r1 \<in> set (dead_rows results)"
    and r2: "r2 \<in> set (cold_rows max_imports min_depth results)"
    and eq: "module r1 = module r2"
    by auto
  from r1 have a: "r1 \<in> set results" "import_count r1 = 0" by (simp_all add: dead_rows_set)
  from r2 have b: "r2 \<in> set results" "1 \<le> import_count r2" by (simp_all add: cold_rows_set)
  from assms have "inj_on module (set results)" by (simp add: distinct_map)
  with a(1) b(1) eq have "r1 = r2" by (simp add: inj_on_eq_iff)
  with a(2) b(2) show False by simp
qed

lemma py_slice_to_prefix: "\<exists>n. py_slice_to xs k = take n xs"
  by (auto simp: py_slice_to_def)

lemma views_tree_analyze: "analyze views_tree = Inr views_tree_metrics"
  by (simp add: views_tree_def views_tree_metrics_def eval_defs eval_more)

lemma views_tree_dead:
  "map module (py_slice_to (dead_rows views_tree_metrics) 50) = [''a.b.c.y'', ''a.x'', ''top''] \<and>
   map depth (py_slice_to (dead_rows views_tree_metrics) 50) = [3, 1, 0]"
  by (simp add: views_tree_metrics_def dead_rows_def py_slice_to_def)

lemma views_tree_cold:
  "map module (py_slice_to (cold_rows default_max_imports 0 views_tree_metrics) 20) = [''a.z''] \<and>
   map import_count (py_slice_to (cold_rows default_max_imports 0 views_tree_metrics) 20) = [2]"
  by (simp add: views_tree_metrics_def cold_rows_def default_max_imports_def py_slice_to_def)


section \<open>The claims\<close>

subsection \<open>C1: importer counts\<close>

text \<open>
  C1 says that the importer count of \<open>m\<close> is the number of distinct other files whose
  resolved dependency set contains \<open>m\<close>. In \<^const>\<open>root_init_tree\<close> two files other than
  \<^verbatim>\<open>a.py\<close> resolve \<^verbatim>\<open>import a\<close> to \<^verbatim>\<open>a\<close>, the root \<^verbatim>\<open>__init__.py\<close> and \<^verbatim>\<open>b.py\<close>,
  and the count of \<^verbatim>\<open>a\<close> is 1: \<^verbatim>\<open>analyze\<close> leaves out every file whose own module
  name is empty.
\<close>

theorem root_initializer_importer_counterexample:
  "analyze root_init_tree =
     Inr [\<lparr> module = ''a'', rel_path = ''a.py'', depth = 0, import_count = 1,
             importers = [''b.py''], score = 0 \<rparr>,
          \<lparr> module = ''b'', rel_path = ''b.py'', depth = 0, import_count = 0,
             importers = [], score = 0 \<rparr>] \<and>
   claimed_importer_paths root_init_tree ''a'' = {''__init__.py'', ''b.py''} \<and>
   card (claimed_importer_paths root_init_tree ''a'') = 2"
  by (simp add: root_init_tree_def claimed_importer_paths_def eval_defs eval_more)

text \<open>
  C1, as the code has it. The analysis returns one row per key of the registry, in the
  order of the registry and without repetition, also for modules that nothing imports;
  the importer index has the keys of the registry. For every row of a module \<open>m\<close>, the
  importer count is the number of distinct root-relative paths of the files that have a
  non-empty module name other than \<open>m\<close> and whose resolved imports contain \<open>m\<close>, and the
  importer list holds exactly these paths, each once. When no part of a path holds the
  separator, the path of the file registered for \<open>m\<close> is not among the importers of \<open>m\<close>.
\<close>

theorem importer_counts:
  "\<exists>rows. analyze t = Inr rows \<and>
     map module rows = map fst (build_module_registry t) \<and>
     distinct (map module rows) \<and>
     map fst (importer_index t) = map fst (build_module_registry t) \<and>
     (\<forall>r\<in>set rows.
        import_count r = int (card (importer_paths t (module r))) \<and>
        set (importers r) = importer_paths t (module r) \<and>
        distinct (importers r) \<and>
        ((\<forall>p\<in>set (rglob_py t). slash_free p) \<longrightarrow> rel_path r \<notin> set (importers r)))"
proof -
  let ?rows = "map (\<lambda>(m, q). result_row m q (importer_paths t m)) (build_module_registry t)"
  have a: "analyze t = Inr ?rows"
    by (rule analyze_eq)
  have b: "map module ?rows = map fst (build_module_registry t)"
    using a by (rule analyze_modules)
  have c: "distinct (map module ?rows)"
    unfolding b by (rule registry_distinct)
  have d: "map fst (importer_index t) = map fst (build_module_registry t)"
    by (rule importer_index_keys)
  have e: "import_count r = int (card (importer_paths t (module r))) \<and>
      set (importers r) = importer_paths t (module r) \<and>
      distinct (importers r) \<and>
      ((\<forall>p\<in>set (rglob_py t). slash_free p) \<longrightarrow> rel_path r \<notin> set (importers r))"
    if "r \<in> set ?rows" for r
  proof -
    let ?s = "importer_paths t (module r)"
    from a that obtain q where q: "(module r, q) \<in> set (build_module_registry t)"
      and r: "r = result_row (module r) q ?s"
      using analyze_row by blast
    have fin: "finite ?s" by (rule importer_paths_finite)
    have "import_count (result_row (module r) q ?s) = int (card ?s)"
      by (simp add: result_row_def)
    with r have r1: "import_count r = int (card ?s)" by simp
    have "importers (result_row (module r) q ?s) = sorted_list_of_set ?s"
      by (simp add: result_row_def)
    with r have im: "importers r = sorted_list_of_set ?s" by simp
    have r2: "set (importers r) = ?s" unfolding im using fin by simp
    have r3: "distinct (importers r)" unfolding im by simp
    have "rel_path (result_row (module r) q ?s) = rel_path_str q"
      by (simp add: result_row_def)
    with r have rp: "rel_path r = rel_path_str q" by simp
    have r4: "rel_path r \<notin> set (importers r)" if wf: "\<forall>p\<in>set (rglob_py t). slash_free p"
    proof
      assume "rel_path r \<in> set (importers r)"
      with r2 rp have "rel_path_str q \<in> ?s" by simp
      then obtain f where f: "f \<in> set (rglob_py t)" "file_to_module_name f \<noteq> module r"
        and eq: "rel_path_str q = rel_path_str f"
        by (auto simp: importer_paths_def)
      from registry_value [OF registry_entry [OF q]]
      have qv: "q \<in> set (rglob_py t)" "file_to_module_name q = module r" by blast+
      from wf qv(1) f(1) have "slash_free q" "slash_free f" by blast+
      then have "q = f" using eq by (rule rel_path_str_inject)
      with qv(2) f(2) show False by simp
    qed
    from r1 r2 r3 r4 show ?thesis by blast
  qed
  from a b c d e show ?thesis by blast
qed

text \<open>In \<^const>\<open>root_init_tree\<close> the one importer of \<^verbatim>\<open>a\<close> is \<^verbatim>\<open>b.py\<close>.\<close>

theorem importer_counts_witness:
  "list_all slash_free (rglob_py root_init_tree) \<and>
   importer_paths root_init_tree ''a'' = {''b.py''} \<and>
   (\<exists>rows. analyze root_init_tree = Inr rows \<and> map module rows = [''a'', ''b''] \<and>
      map import_count rows = [1, 0] \<and> map importers rows = [[''b.py''], []])"
  using importer_counts [of root_init_tree]
  by (simp add: root_init_tree_def slash_free_def importer_paths_def eval_defs eval_more
      list_all_iff)

subsection \<open>C2: relative from-imports\<close>

text \<open>
  C2. A from-import of relative level \<open>L \<ge> 1\<close> is resolved against the segments of the
  importing module's dotted name, \<open>S\<close> of them. When \<open>S < L\<close> the result is empty.
  Otherwise the anchor is the first \<open>S - L\<close> segments; with a base module every resolved
  name is \<open>base.name\<close> or \<open>base\<close>, where \<open>base\<close> joins the anchor and the segments of
  the base module, and without one every resolved name joins the anchor and an imported
  name.
\<close>

theorem relative_anchor_resolution:
  fixes level :: int and cur :: string and m :: string
  defines "anchor \<equiv> take (length (split_dot cur) - nat level) (split_dot cur)"
  defines "base \<equiv> join_dot (anchor @ split_dot m)"
  assumes "1 \<le> level"
  shows "(int (length (split_dot cur)) < level \<longrightarrow>
            resolve_relative_import level bm names cur known = {}) \<and>
         (level \<le> int (length (split_dot cur)) \<longrightarrow>
            resolve_relative_import level (Some m) names cur known =
              (\<Union>n\<in>set names.
                 if n \<noteq> ''*'' \<and> py_in (base @ ''.'' @ n) known then {base @ ''.'' @ n}
                 else if py_in base known then {base} else {}) \<and>
            resolve_relative_import level None names cur known =
              (\<Union>n\<in>set names.
                 if py_in (join_dot (anchor @ [n])) known then {join_dot (anchor @ [n])}
                 else {}))"
proof (intro conjI impI)
  assume "int (length (split_dot cur)) < level"
  then show "resolve_relative_import level bm names cur known = {}"
    by (rule resolve_relative_too_deep)
next
  assume le: "level \<le> int (length (split_dot cur))"
  have a: "py_slice_to (split_dot cur) (- level) = anchor"
    unfolding anchor_def using assms(3) le by (rule py_slice_to_neg)
  show "resolve_relative_import level (Some m) names cur known =
      (\<Union>n\<in>set names.
         if n \<noteq> ''*'' \<and> py_in (base @ ''.'' @ n) known then {base @ ''.'' @ n}
         else if py_in base known then {base} else {})"
    unfolding resolve_relative_base [OF le] a base_def ..
  show "resolve_relative_import level None names cur known =
      (\<Union>n\<in>set names.
         if py_in (join_dot (anchor @ [n])) known then {join_dot (anchor @ [n])} else {})"
    unfolding resolve_relative_bare [OF le] a ..
qed

text \<open>
  Scenario A: module \<^verbatim>\<open>pkg.b\<close> with \<^verbatim>\<open>from . import a\<close>, and with
  \<^verbatim>\<open>from .a import f, g\<close>, resolves to \<^verbatim>\<open>pkg.a\<close>; three levels up from a name of
  two segments there is nothing.
\<close>

theorem relative_anchor_resolution_witness:
  "(1::int) \<le> 1 \<and> (1::int) \<le> 3 \<and>
   resolve_relative_import 1 None [''a''] ''pkg.b''
     [(''pkg'', RelPath [''pkg''] ''__init__.py''), (''pkg.a'', RelPath [''pkg''] ''a.py''),
      (''pkg.b'', RelPath [''pkg''] ''b.py'')] = {''pkg.a''} \<and>
   resolve_relative_import 1 (Some ''a'') [''f'', ''g''] ''pkg.b''
     [(''pkg'', RelPath [''pkg''] ''__init__.py''), (''pkg.a'', RelPath [''pkg''] ''a.py''),
      (''pkg.b'', RelPath [''pkg''] ''b.py'')] = {''pkg.a''} \<and>
   resolve_relative_import 3 None [''a''] ''pkg.b''
     [(''pkg'', RelPath [''pkg''] ''__init__.py''), (''pkg.a'', RelPath [''pkg''] ''a.py''),
      (''pkg.b'', RelPath [''pkg''] ''b.py'')] = {}"
  using relative_anchor_resolution [where level = 1 and cur = "''pkg.b''" and m = "''a''"
      and known = "[(''pkg'', RelPath [''pkg''] ''__init__.py''),
        (''pkg.a'', RelPath [''pkg''] ''a.py''), (''pkg.b'', RelPath [''pkg''] ''b.py'')]"]
    relative_anchor_resolution [where level = 3 and cur = "''pkg.b''" and bm = None
      and known = "[(''pkg'', RelPath [''pkg''] ''__init__.py''),
        (''pkg.a'', RelPath [''pkg''] ''a.py''), (''pkg.b'', RelPath [''pkg''] ''b.py'')]"]
  by (simp add: split_dot_def join_dot_def py_in_def)

subsection \<open>C3: the wildcard in a relative from-import with a base\<close>

text \<open>
  C3 says that a wildcard name adds no module, not even the base path. In
  \<^const>\<open>wildcard_tree\<close> the only name of \<^verbatim>\<open>from .base import *\<close> is the wildcard, and
  the import resolves to \<^verbatim>\<open>pkg.base\<close>: the wildcard takes the second branch of the
  loop, the fall-back to the base path.
\<close>

theorem wildcard_fallback_counterexample:
  "resolve_relative_import 1 (Some ''base'') [''*''] ''pkg.b''
     (build_module_registry wildcard_tree) = {''pkg.base''}"
  by (simp add: wildcard_tree_def eval_defs)

text \<open>
  C3, as the code has it. For a relative from-import with a base module and a valid
  anchor, the wildcard is never looked up as \<open>base.*\<close>, so \<open>base.*\<close> is never in the
  resolved set; a wildcard name resolves to the base path when that is a known module
  and to nothing otherwise; every other name resolves to \<open>base.name\<close> when known, else
  to the base path when known, else to nothing.
\<close>

theorem wildcard_resolution:
  fixes level :: int and cur :: string and m :: string
  defines "anchor \<equiv> take (length (split_dot cur) - nat level) (split_dot cur)"
  defines "base \<equiv> join_dot (anchor @ split_dot m)"
  assumes "1 \<le> level" and "level \<le> int (length (split_dot cur))"
  shows "base @ ''.'' @ ''*'' \<notin> resolve_relative_import level (Some m) names cur known \<and>
         resolve_relative_import level (Some m) names cur known =
           (\<Union>n\<in>set names.
              if n = ''*'' then (if py_in base known then {base} else {})
              else if py_in (base @ ''.'' @ n) known then {base @ ''.'' @ n}
              else if py_in base known then {base} else {})"
proof -
  have a: "py_slice_to (split_dot cur) (- level) = anchor"
    unfolding anchor_def using assms(3,4) by (rule py_slice_to_neg)
  have r: "resolve_relative_import level (Some m) names cur known =
      (\<Union>n\<in>set names.
         if n \<noteq> ''*'' \<and> py_in (base @ ''.'' @ n) known then {base @ ''.'' @ n}
         else if py_in base known then {base} else {})"
    unfolding resolve_relative_base [OF assms(4)] a base_def ..
  have "base @ ''.'' @ ''*'' \<notin> resolve_relative_import level (Some m) names cur known"
    unfolding r by (auto split: if_splits)
  moreover have "resolve_relative_import level (Some m) names cur known =
      (\<Union>n\<in>set names.
         if n = ''*'' then (if py_in base known then {base} else {})
         else if py_in (base @ ''.'' @ n) known then {base @ ''.'' @ n}
         else if py_in base known then {base} else {})"
    unfolding r by (rule SUP_cong) auto
  ultimately show ?thesis by blast
qed

text \<open>
  Even when a module \<^verbatim>\<open>pkg.base.*\<close> is known, \<^verbatim>\<open>from .base import *, f\<close> in
  \<^verbatim>\<open>pkg.b\<close> resolves to \<^verbatim>\<open>pkg.base\<close> alone.
\<close>

theorem wildcard_resolution_witness:
  "(1::int) \<le> 1 \<and> (1::int) \<le> int (length (split_dot ''pkg.b'')) \<and>
   ''pkg.base.*'' \<notin> resolve_relative_import 1 (Some ''base'') [''*'', ''f''] ''pkg.b''
       [(''pkg.base'', RelPath [''pkg''] ''base.py''),
        (''pkg.base.*'', RelPath [''pkg'', ''base''] ''*.py'')] \<and>
   resolve_relative_import 1 (Some ''base'') [''*'', ''f''] ''pkg.b''
       [(''pkg.base'', RelPath [''pkg''] ''base.py''),
        (''pkg.base.*'', RelPath [''pkg'', ''base''] ''*.py'')] = {''pkg.base''}"
  using wildcard_resolution [where level = 1 and cur = "''pkg.b''" and m = "''base''"
      and names = "[''*'', ''f'']"
      and known = "[(''pkg.base'', RelPath [''pkg''] ''base.py''),
        (''pkg.base.*'', RelPath [''pkg'', ''base''] ''*.py'')]"]
  by (simp add: split_dot_def join_dot_def py_in_def)

subsection \<open>C4: direct imports\<close>

text \<open>
  C4. A direct import of \<open>n1.n2...nk\<close> resolves to the longest prefix \<open>n1...ni\<close> that is
  a known module: the prefixes are tried from \<open>i = k\<close> down to \<open>i = 1\<close> and the first
  known one is added. When no prefix is known, nothing is added. A node with several
  aliases adds, for each alias, the first known entry of \<^const>\<open>prefix_candidates\<close>.
  The registry never holds the empty name, which is the hypothesis.
\<close>

theorem direct_import_resolution:
  fixes dotted :: string
  defines "name_parts \<equiv> split_dot dotted"
  assumes "\<not> py_in [] known"
  shows "(\<forall>i. 1 \<le> i \<and> i \<le> length name_parts \<and> py_in (join_dot (take i name_parts)) known \<and>
            (\<forall>j. i < j \<and> j \<le> length name_parts \<longrightarrow> \<not> py_in (join_dot (take j name_parts)) known)
          \<longrightarrow> handle_ast_import [dotted] known imported =
                insert (join_dot (take i name_parts)) imported) \<and>
         ((\<forall>j. 1 \<le> j \<and> j \<le> length name_parts \<longrightarrow> \<not> py_in (join_dot (take j name_parts)) known)
          \<longrightarrow> handle_ast_import [dotted] known imported = imported) \<and>
         handle_ast_import node_names known imported =
           imported \<union> (\<Union>n\<in>set node_names.
              set_option (find (\<lambda>c. py_in c known) (prefix_candidates n)))"
proof (intro conjI allI impI)
  fix i
  assume h: "1 \<le> i \<and> i \<le> length name_parts \<and> py_in (join_dot (take i name_parts)) known \<and>
    (\<forall>j. i < j \<and> j \<le> length name_parts \<longrightarrow> \<not> py_in (join_dot (take j name_parts)) known)"
  then have b: "best_prefix name_parts known (length name_parts) = Some (join_dot (take i name_parts))"
    by (intro best_prefix_hit) simp_all
  from h assms(2) have "join_dot (take i name_parts) \<noteq> []" by auto
  with b show "handle_ast_import [dotted] known imported = insert (join_dot (take i name_parts)) imported"
    unfolding handle_ast_import_single import_alias_step_def name_parts_def Let_def by simp
next
  assume "\<forall>j. 1 \<le> j \<and> j \<le> length name_parts \<longrightarrow> \<not> py_in (join_dot (take j name_parts)) known"
  then have "best_prefix name_parts known (length name_parts) = None"
    by (intro best_prefix_miss) simp
  then show "handle_ast_import [dotted] known imported = imported"
    unfolding handle_ast_import_single import_alias_step_def name_parts_def Let_def by simp
next
  show "handle_ast_import node_names known imported =
      imported \<union> (\<Union>n\<in>set node_names.
        set_option (find (\<lambda>c. py_in c known) (prefix_candidates n)))"
    by (rule handle_ast_import_union [OF assms(2)])
qed

text \<open>
  Scenario B: \<^verbatim>\<open>import sub.deep.mod\<close> where \<^verbatim>\<open>sub.deep\<close> is known and
  \<^verbatim>\<open>sub.deep.mod\<close> is not resolves to \<^verbatim>\<open>sub.deep\<close>; \<^verbatim>\<open>import os.path\<close> resolves
  to nothing.
\<close>

theorem direct_import_resolution_witness:
  "\<not> py_in [] [(''sub.deep'', RelPath [''sub'', ''deep''] ''__init__.py''),
               (''top'', RelPath [] ''top.py'')] \<and>
   handle_ast_import [''sub.deep.mod''] [(''sub.deep'', RelPath [''sub'', ''deep''] ''__init__.py''),
               (''top'', RelPath [] ''top.py'')] {} = {''sub.deep''} \<and>
   handle_ast_import [''os.path''] [(''sub.deep'', RelPath [''sub'', ''deep''] ''__init__.py''),
               (''top'', RelPath [] ''top.py'')] {} = {}"
proof -
  let ?known = "[(''sub.deep'', RelPath [''sub'', ''deep''] ''__init__.py''),
                 (''top'', RelPath [] ''top.py'')]"
  have k: "\<not> py_in [] ?known"
    by (simp add: py_in_def)
  have p: "split_dot ''sub.deep.mod'' = [''sub'', ''deep'', ''mod'']"
    by (simp add: split_dot_def)
  have q: "split_dot ''os.path'' = [''os'', ''path'']"
    by (simp add: split_dot_def)
  have "handle_ast_import [''sub.deep.mod''] ?known {} = {''sub.deep''}"
    using direct_import_resolution [OF k, where dotted = "''sub.deep.mod''" and imported = "{}",
        THEN conjunct1, rule_format, of 2]
    by (simp add: p join_dot_def py_in_def le_Suc_eq)
  moreover have "handle_ast_import [''os.path''] ?known {} = {}"
    using direct_import_resolution [OF k, where dotted = "''os.path''" and imported = "{}",
        THEN conjunct2, THEN conjunct1]
    by (auto simp: q join_dot_def py_in_def le_Suc_eq)
  ultimately show ?thesis using k by blast
qed

subsection \<open>C5: absolute from-imports\<close>

text \<open>
  C5. An absolute from-import (level absent or 0) without base module adds nothing. With
  a base module, each imported name adds \<open>base.name\<close> when that is known, else \<open>base\<close>
  when that is known, else nothing. So when \<open>base\<close> is known and no \<open>base.name\<close> is, a
  non-empty list of names, wildcards or not, resolves to exactly \<open>{base}\<close>.
\<close>

theorem absolute_from_resolution:
  assumes "node_level = None \<or> node_level = Some 0"
  shows "handle_ast_import_from node_level None names cur known imported = imported \<and>
         handle_ast_import_from node_level (Some base) names cur known imported =
           imported \<union> (\<Union>n\<in>set names.
              if py_in (base @ ''.'' @ n) known then {base @ ''.'' @ n}
              else if py_in base known then {base} else {}) \<and>
         (names \<noteq> [] \<and> py_in base known \<and> (\<forall>n\<in>set names. \<not> py_in (base @ ''.'' @ n) known) \<longrightarrow>
            handle_ast_import_from node_level (Some base) names cur known {} = {base})"
proof (intro conjI impI)
  have a: "node_level = None \<or> node_level = Some 0 \<and> (0::int) \<le> 0"
    using assms by simp
  show "handle_ast_import_from node_level None names cur known imported = imported"
    by (rule handle_from_absolute_none [OF a])
  show "handle_ast_import_from node_level (Some base) names cur known imported =
      imported \<union> (\<Union>n\<in>set names.
         if py_in (base @ ''.'' @ n) known then {base @ ''.'' @ n}
         else if py_in base known then {base} else {})"
    by (rule handle_from_absolute_some [OF a])
  assume h: "names \<noteq> [] \<and> py_in base known \<and> (\<forall>n\<in>set names. \<not> py_in (base @ ''.'' @ n) known)"
  have "(\<Union>n\<in>set names.
         if py_in (base @ ''.'' @ n) known then {base @ ''.'' @ n}
         else if py_in base known then {base} else {}) = (\<Union>n\<in>set names. {base})"
    by (rule SUP_cong) (use h in simp_all)
  also have "\<dots> = {base}"
    by (rule UN_const_singleton) (use h in simp)
  finally show "handle_ast_import_from node_level (Some base) names cur known {} = {base}"
    unfolding handle_from_absolute_some [OF a] by simp
qed

text \<open>Scenario E: \<^verbatim>\<open>from base import *, f, *\<close> resolves to \<^verbatim>\<open>base\<close> once.\<close>

theorem absolute_from_resolution_witness:
  "py_in ''base'' [(''base'', RelPath [] ''base.py''), (''top'', RelPath [] ''top.py'')] \<and>
   handle_ast_import_from (Some 0) (Some ''base'') [''*'', ''f'', ''*''] ''top''
     [(''base'', RelPath [] ''base.py''), (''top'', RelPath [] ''top.py'')] {} = {''base''}"
  using absolute_from_resolution [where node_level = "Some 0" and base = "''base''"
      and names = "[''*'', ''f'', ''*'']"
      and known = "[(''base'', RelPath [] ''base.py''), (''top'', RelPath [] ''top.py'')]"]
  by (simp add: py_in_def)

subsection \<open>C6: module names and depth\<close>

text \<open>
  C6. A package initializer maps to the dotted name of its directory; directly under
  the root that name is empty, the registry has no empty key and the root initializer
  is the file of no module. Any other file \<open>stem.py\<close> maps to its directory segments
  followed by \<open>stem\<close>. The analysis returns one row per key of the registry, and the
  depth of a row is the number of parts of the path registered for its module, minus
  one, which is the number of its directory segments.
\<close>

theorem module_names_and_depth:
  "(fname p = ''__init__.py'' \<longrightarrow> file_to_module_name p = join_dot (dirs p)) \<and>
   file_to_module_name (RelPath [] ''__init__.py'') = [] \<and>
   \<not> py_in [] (build_module_registry t) \<and>
   RelPath [] ''__init__.py'' \<notin> snd ` set (build_module_registry t) \<and>
   (fname p \<noteq> ''__init__.py'' \<and> fname p = stem @ ''.py'' \<longrightarrow>
      file_to_module_name p = join_dot (dirs p @ [stem])) \<and>
   (\<exists>rows. analyze t = Inr rows \<and>
      map module rows = map fst (build_module_registry t) \<and>
      (\<forall>r\<in>set rows. \<exists>q. map_of (build_module_registry t) (module r) = Some q \<and>
         depth r = int (length (parts q)) - 1 \<and> depth r = int (length (dirs q))))"
proof (intro conjI impI)
  show "file_to_module_name p = join_dot (dirs p)" if "fname p = ''__init__.py''"
    using that by (simp add: file_to_module_name_def join_dot_def)
  show "file_to_module_name (RelPath [] ''__init__.py'') = []"
    by (rule root_init_name)
  show "\<not> py_in [] (build_module_registry t)"
    by (rule registry_no_empty_name)
  show "RelPath [] ''__init__.py'' \<notin> snd ` set (build_module_registry t)"
  proof
    assume "RelPath [] ''__init__.py'' \<in> snd ` set (build_module_registry t)"
    then obtain n where "(n, RelPath [] ''__init__.py'') \<in> set (build_module_registry t)"
      by force
    then have "map_of (build_module_registry t) n = Some (RelPath [] ''__init__.py'')"
      by (rule registry_entry)
    from registry_value [OF this] show False by (auto simp: root_init_name)
  qed
  show "file_to_module_name p = join_dot (dirs p @ [stem])"
    if "fname p \<noteq> ''__init__.py'' \<and> fname p = stem @ ''.py''"
  proof -
    from that have ne: "fname p \<noteq> ''__init__.py''" and eq: "fname p = stem @ ''.py''"
      by blast+
    from ne have "file_to_module_name p = join_dot (dirs p @ [py_slice_to (fname p) (- 3)])"
      unfolding file_to_module_name_def by (rule if_not_P)
    moreover have "py_slice_to (fname p) (- 3) = stem"
      unfolding eq by (rule py_slice_to_strip)
    ultimately show ?thesis by simp
  qed
  show "\<exists>rows. analyze t = Inr rows \<and>
      map module rows = map fst (build_module_registry t) \<and>
      (\<forall>r\<in>set rows. \<exists>q. map_of (build_module_registry t) (module r) = Some q \<and>
         depth r = int (length (parts q)) - 1 \<and> depth r = int (length (dirs q)))"
  proof -
    let ?rows = "map (\<lambda>(m, q). result_row m q (importer_paths t m)) (build_module_registry t)"
    have a: "analyze t = Inr ?rows"
      by (rule analyze_eq)
    have b: "map module ?rows = map fst (build_module_registry t)"
      using a by (rule analyze_modules)
    have c: "\<exists>q. map_of (build_module_registry t) (module r) = Some q \<and>
        depth r = int (length (parts q)) - 1 \<and> depth r = int (length (dirs q))"
      if "r \<in> set ?rows" for r
    proof -
      from a that obtain q where q: "(module r, q) \<in> set (build_module_registry t)"
        and r: "r = result_row (module r) q (importer_paths t (module r))"
        using analyze_row by blast
      have "depth (result_row (module r) q (importer_paths t (module r))) = compute_depth q"
        by (simp add: result_row_def)
      with r have "depth r = compute_depth q" by simp
      then have "depth r = int (length (parts q)) - 1 \<and> depth r = int (length (dirs q))"
        by (simp add: compute_depth_def parts_def)
      with registry_entry [OF q] show ?thesis by blast
    qed
    from a b c show ?thesis by blast
  qed
qed

text \<open>
  In \<^const>\<open>depth_tree\<close> the root initializer is not registered, \<^verbatim>\<open>top\<close> has depth 0,
  \<^verbatim>\<open>pkg\<close> and \<^verbatim>\<open>pkg.a\<close> have depth 1.
\<close>

theorem module_names_and_depth_witness:
  "file_to_module_name (RelPath [''pkg''] ''__init__.py'') = ''pkg'' \<and>
   file_to_module_name (RelPath [''pkg''] ''a.py'') = ''pkg.a'' \<and>
   build_module_registry depth_tree =
     [(''pkg'', RelPath [''pkg''] ''__init__.py''), (''pkg.a'', RelPath [''pkg''] ''a.py''),
      (''top'', RelPath [] ''top.py'')] \<and>
   (\<exists>rows. analyze depth_tree = Inr rows \<and> map module rows = [''pkg'', ''pkg.a'', ''top''] \<and>
      map depth rows = [1, 1, 0])"
  using module_names_and_depth [of "RelPath [''pkg''] ''__init__.py''" depth_tree "''a''"]
    module_names_and_depth [of "RelPath [''pkg''] ''a.py''" depth_tree "''a''"]
  by (simp add: depth_tree_def eval_defs analyze_eq result_row_def compute_depth_def)

subsection \<open>C7: the dead and the cold view\<close>

text \<open>
  C7. Before the cut to the first \<^verbatim>\<open>top\<close> rows, the dead view keeps exactly the rows
  with importer count 0, and the cold view exactly the rows with importer count from 1
  to the maximum (3 by default) and depth at least the minimum. No row is in both
  views, and no module either when the rows have distinct modules, as those of the
  analysis have. The dead view is sorted by descending depth, then by ascending module
  name: a row of greater depth stands before every row of smaller depth. Both commands
  hand a prefix of their view to the formatter.
\<close>

theorem dead_and_cold_views:
  "(r \<in> set (dead_rows results) \<longleftrightarrow> r \<in> set results \<and> import_count r = 0) \<and>
   (r \<in> set (cold_rows max_imports min_depth results) \<longleftrightarrow>
      r \<in> set results \<and> 1 \<le> import_count r \<and> import_count r \<le> max_imports \<and>
      min_depth \<le> depth r) \<and>
   default_max_imports = 3 \<and>
   set (dead_rows results) \<inter> set (cold_rows max_imports min_depth results) = {} \<and>
   (distinct (map module results) \<longrightarrow>
      module ` set (dead_rows results) \<inter>
        module ` set (cold_rows max_imports min_depth results) = {}) \<and>
   sorted (map (\<lambda>r. (- depth r, module r)) (dead_rows results)) \<and>
   (\<forall>i j. i < length (dead_rows results) \<and> j < length (dead_rows results) \<and>
      depth (dead_rows results ! j) < depth (dead_rows results ! i) \<longrightarrow> i < j) \<and>
   (\<forall>i j. i < j \<and> j < length (dead_rows results) \<and>
      depth (dead_rows results ! i) = depth (dead_rows results ! j) \<longrightarrow>
      module (dead_rows results ! i) \<le> module (dead_rows results ! j)) \<and>
   (\<exists>rows. analyze t = Inr rows \<and> distinct (map module rows) \<and>
      cmd_dead top_n t = Inr (py_slice_to (dead_rows rows) top_n) \<and>
      cmd_cold max_imports min_depth top_n t =
        Inr (py_slice_to (cold_rows max_imports min_depth rows) top_n))"
proof (intro conjI allI impI)
  show "r \<in> set (dead_rows results) \<longleftrightarrow> r \<in> set results \<and> import_count r = 0"
    by (simp add: dead_rows_set)
  show "r \<in> set (cold_rows max_imports min_depth results) \<longleftrightarrow>
      r \<in> set results \<and> 1 \<le> import_count r \<and> import_count r \<le> max_imports \<and>
      min_depth \<le> depth r"
    by (simp add: cold_rows_set)
  show "default_max_imports = 3"
    by (rule default_max_imports_def)
  show "set (dead_rows results) \<inter> set (cold_rows max_imports min_depth results) = {}"
    by (auto simp: dead_rows_set cold_rows_set)
  show "module ` set (dead_rows results) \<inter>
      module ` set (cold_rows max_imports min_depth results) = {}"
    if "distinct (map module results)"
    using that by (rule dead_cold_modules_disjoint)
  show "sorted (map (\<lambda>r. (- depth r, module r)) (dead_rows results))"
    by (rule dead_rows_sorted)
  show "i < j"
    if "i < length (dead_rows results) \<and> j < length (dead_rows results) \<and>
      depth (dead_rows results ! j) < depth (dead_rows results ! i)" for i j
    using that dead_rows_order by blast
  show "module (dead_rows results ! i) \<le> module (dead_rows results ! j)"
    if "i < j \<and> j < length (dead_rows results) \<and>
      depth (dead_rows results ! i) = depth (dead_rows results ! j)" for i j
    using that dead_rows_tie by blast
  show "\<exists>rows. analyze t = Inr rows \<and> distinct (map module rows) \<and>
      cmd_dead top_n t = Inr (py_slice_to (dead_rows rows) top_n) \<and>
      cmd_cold max_imports min_depth top_n t =
        Inr (py_slice_to (cold_rows max_imports min_depth rows) top_n)"
  proof -
    let ?rows = "map (\<lambda>(m, q). result_row m q (importer_paths t m)) (build_module_registry t)"
    have a: "analyze t = Inr ?rows" by (rule analyze_eq)
    have b: "map module ?rows = map fst (build_module_registry t)"
      using a by (rule analyze_modules)
    have "distinct (map module ?rows)"
      unfolding b by (rule registry_distinct)
    with a show ?thesis by (auto simp: cmd_dead_def cmd_cold_def)
  qed
qed

text \<open>
  Scenario C: in \<^const>\<open>views_tree\<close> nothing imports \<^verbatim>\<open>a.b.c.y\<close>, \<^verbatim>\<open>a.x\<close> and
  \<^verbatim>\<open>top\<close>; the dead view lists them by descending depth, and the cold view holds
  \<^verbatim>\<open>a.z\<close> with its two importers.
\<close>

theorem dead_and_cold_views_witness:
  "(\<exists>out. cmd_dead 50 views_tree = Inr out \<and>
      map module out = [''a.b.c.y'', ''a.x'', ''top''] \<and> map depth out = [3, 1, 0]) \<and>
   (\<exists>out. cmd_cold default_max_imports 0 20 views_tree = Inr out \<and>
      map module out = [''a.z''] \<and> map import_count out = [2])"
proof -
  from dead_and_cold_views [where t = views_tree and top_n = 50,
      THEN conjunct2, THEN conjunct2, THEN conjunct2, THEN conjunct2,
      THEN conjunct2, THEN conjunct2, THEN conjunct2, THEN conjunct2]
  obtain rows where a: "analyze views_tree = Inr rows"
    and d: "cmd_dead 50 views_tree = Inr (py_slice_to (dead_rows rows) 50)"
    by blast
  from dead_and_cold_views [where t = views_tree and top_n = 20
      and max_imports = default_max_imports and min_depth = 0,
      THEN conjunct2, THEN conjunct2, THEN conjunct2, THEN conjunct2,
      THEN conjunct2, THEN conjunct2, THEN conjunct2, THEN conjunct2]
  obtain rows' where a': "analyze views_tree = Inr rows'"
    and c: "cmd_cold default_max_imports 0 20 views_tree =
      Inr (py_slice_to (cold_rows default_max_imports 0 rows') 20)"
    by blast
  from a have r: "rows = views_tree_metrics" by (simp add: views_tree_analyze)
  from a' have r': "rows' = views_tree_metrics" by (simp add: views_tree_analyze)
  from d views_tree_dead have "\<exists>out. cmd_dead 50 views_tree = Inr out \<and>
      map module out = [''a.b.c.y'', ''a.x'', ''top''] \<and> map depth out = [3, 1, 0]"
    unfolding r by (intro exI conjI) (assumption, simp_all)
  moreover from c views_tree_cold have "\<exists>out. cmd_cold default_max_imports 0 20 views_tree = Inr out \<and>
      map module out = [''a.z''] \<and> map import_count out = [2]"
    unfolding r' by (intro exI conjI) (assumption, simp_all)
  ultimately show ?thesis by (rule conjI)
qed

subsection \<open>C8: the resolver on degenerate inputs\<close>

text \<open>
  C8 says that a wildcard-only import without base resolves to the empty set for every
  set of known modules. In \<^const>\<open>star_tree\<close> the file \<^verbatim>\<open>pkg/*.py\<close> is registered as
  module \<^verbatim>\<open>pkg.*\<close>, and \<^verbatim>\<open>from . import *\<close> in \<^verbatim>\<open>pkg.b\<close> resolves to it: without
  a base module the wildcard is looked up like any other name.
\<close>

theorem bare_wildcard_counterexample:
  "resolve_relative_import 1 None [''*''] ''pkg.b'' (build_module_registry star_tree) =
     {''pkg.*''}"
  by (simp add: star_tree_def eval_defs)

text \<open>
  C8, as the code has it. No operation of the two resolution paths can raise, so both
  are functions into sets of names. For every level, base module, list of names,
  importing module and registry: the result of either path holds keys of the registry
  only; an empty list of names resolves to the empty set on either path; on the
  absolute path an import without base resolves to the empty set whatever its names; on
  the relative path a wildcard-only import without base resolves to the empty set
  exactly when the level exceeds the segments of the importing module or \<open>anchor.*\<close> is
  not a known module.
\<close>

theorem resolver_total:
  "resolve_relative_import level bm names cur known \<subseteq> set (map fst known) \<and>
   handle_ast_import_from node_level bm names cur known {} \<subseteq> set (map fst known) \<and>
   resolve_relative_import level bm [] cur known = {} \<and>
   handle_ast_import_from node_level bm [] cur known {} = {} \<and>
   (node_level = None \<or> node_level = Some 0 \<longrightarrow>
      handle_ast_import_from node_level None names cur known {} = {}) \<and>
   (resolve_relative_import level None [''*''] cur known = {} \<longleftrightarrow>
      int (length (split_dot cur)) < level \<or>
      \<not> py_in (join_dot (py_slice_to (split_dot cur) (- level) @ [''*''])) known)"
proof (intro conjI impI)
  show "resolve_relative_import level bm names cur known \<subseteq> set (map fst known)"
    by (rule resolve_relative_subset)
  show "handle_ast_import_from node_level bm names cur known {} \<subseteq> set (map fst known)"
    using handle_from_subset [of node_level bm names cur known "{}"] by simp
  show "resolve_relative_import level bm [] cur known = {}"
    by (cases bm) (simp_all add: resolve_relative_import_def Let_def)
  show "handle_ast_import_from node_level bm [] cur known {} = {}"
    by (cases bm; cases node_level)
      (simp_all add: handle_ast_import_from_def resolve_relative_import_def Let_def)
  show "handle_ast_import_from node_level None names cur known {} = {}"
    if "node_level = None \<or> node_level = Some 0"
    using that by (auto simp: handle_ast_import_from_def)
  show "resolve_relative_import level None [''*''] cur known = {} \<longleftrightarrow>
      int (length (split_dot cur)) < level \<or>
      \<not> py_in (join_dot (py_slice_to (split_dot cur) (- level) @ [''*''])) known"
  proof (cases "int (length (split_dot cur)) < level")
    case True
    then show ?thesis by (simp add: resolve_relative_too_deep)
  next
    case False
    then have le: "level \<le> int (length (split_dot cur))" by simp
    show ?thesis unfolding resolve_relative_bare [OF le] using False by simp
  qed
qed

text \<open>
  With the modules \<^verbatim>\<open>pkg.a\<close> and \<^verbatim>\<open>pkg.b\<close>: \<^verbatim>\<open>from . import *\<close> resolves to
  nothing on either path, and so does an import of no names five levels up.
\<close>

theorem resolver_total_witness:
  "resolve_relative_import 1 None [''*''] ''pkg.b''
     [(''pkg.a'', RelPath [''pkg''] ''a.py''), (''pkg.b'', RelPath [''pkg''] ''b.py'')] = {} \<and>
   handle_ast_import_from None None [''*''] ''pkg.b''
     [(''pkg.a'', RelPath [''pkg''] ''a.py''), (''pkg.b'', RelPath [''pkg''] ''b.py'')] {} = {} \<and>
   resolve_relative_import 5 (Some ''a'') [] ''pkg.b''
     [(''pkg.a'', RelPath [''pkg''] ''a.py''), (''pkg.b'', RelPath [''pkg''] ''b.py'')] = {}"
  using resolver_total [where level = 1 and cur = "''pkg.b''" and node_level = None
      and known = "[(''pkg.a'', RelPath [''pkg''] ''a.py''), (''pkg.b'', RelPath [''pkg''] ''b.py'')]"]
    resolver_total [where level = 5 and cur = "''pkg.b''" and bm = "Some ''a''"
      and known = "[(''pkg.a'', RelPath [''pkg''] ''a.py''), (''pkg.b'', RelPath [''pkg''] ''b.py'')]"]
  by (simp add: split_dot_def join_dot_def py_in_def py_slice_to_def)

subsection \<open>C9: two files with one module name\<close>

text \<open>
  C9. The registry has one entry per name. A non-empty name that some file maps to is
  registered with the last file of that name in the sorted enumeration; so the file of
  a registered name is a file of the tree with that name, and the parts of every other
  file with that name are smaller in the lexicographic order.
\<close>

theorem registry_last_file_wins:
  "distinct (map fst (build_module_registry t)) \<and>
   (\<forall>n. n \<noteq> [] \<and> (\<exists>p\<in>set (rglob_py t). file_to_module_name p = n) \<longrightarrow>
      map_of (build_module_registry t) n =
        Some (last (filter (\<lambda>p. file_to_module_name p = n) (collect_python_files t)))) \<and>
   (\<forall>n q. map_of (build_module_registry t) n = Some q \<longrightarrow>
      q \<in> set (rglob_py t) \<and> file_to_module_name q = n \<and>
      (\<forall>p\<in>set (rglob_py t). file_to_module_name p = n \<longrightarrow> parts p \<le> parts q))"
proof (intro conjI allI impI)
  show "distinct (map fst (build_module_registry t))"
    by (rule registry_distinct)
next
  fix n
  assume "n \<noteq> [] \<and> (\<exists>p\<in>set (rglob_py t). file_to_module_name p = n)"
  then show "map_of (build_module_registry t) n =
      Some (last (filter (\<lambda>p. file_to_module_name p = n) (collect_python_files t)))"
    by (simp add: registry_lookup)
next
  fix n q
  assume a: "map_of (build_module_registry t) n = Some q"
  show "q \<in> set (rglob_py t)" using registry_value [OF a] by blast
  show "file_to_module_name q = n" using registry_value [OF a] by blast
  show "\<forall>p\<in>set (rglob_py t). file_to_module_name p = n \<longrightarrow> parts p \<le> parts q"
    using registry_value [OF a] by blast
qed

text \<open>
  \<^verbatim>\<open>pkg/__init__.py\<close> sorts before \<^verbatim>\<open>pkg.py\<close>, both map to \<^verbatim>\<open>pkg\<close>, and the
  registry holds \<^verbatim>\<open>pkg.py\<close>.
\<close>

theorem registry_last_file_wins_witness:
  "collect_python_files collision_tree = [RelPath [''pkg''] ''__init__.py'', RelPath [] ''pkg.py''] \<and>
   file_to_module_name (RelPath [''pkg''] ''__init__.py'') = ''pkg'' \<and>
   file_to_module_name (RelPath [] ''pkg.py'') = ''pkg'' \<and>
   build_module_registry collision_tree = [(''pkg'', RelPath [] ''pkg.py'')] \<and>
   map_of (build_module_registry collision_tree) ''pkg'' = Some (RelPath [] ''pkg.py'')"
  using registry_last_file_wins [of collision_tree, THEN conjunct2, THEN conjunct1, rule_format, of "''pkg''"]
  by (simp add: collision_tree_def eval_defs)

subsection \<open>C10: the initializer of the root\<close>

text \<open>
  C10. The importer index and the result of the analysis do not depend on what the
  \<^verbatim>\<open>__init__.py\<close> directly under the root contains: its imports are never read. Its
  path is in no importer set. Every other file with a non-empty module name is recorded
  as importer of each module that its imports resolve to, its own module apart.
\<close>

theorem root_initializer_skipped:
  "importer_index (t\<lparr>read_imports := (read_imports t)(RelPath [] ''__init__.py'' := c)\<rparr>) =
     importer_index t \<and>
   analyze (t\<lparr>read_imports := (read_imports t)(RelPath [] ''__init__.py'' := c)\<rparr>) = analyze t \<and>
   (\<forall>(m, s)\<in>set (importer_index t). rel_path_str (RelPath [] ''__init__.py'') \<notin> s) \<and>
   (\<forall>f\<in>set (rglob_py t). file_to_module_name f \<noteq> [] \<longrightarrow>
      (\<forall>m\<in>parse_file_imports t f (build_module_registry t). m \<noteq> file_to_module_name f \<longrightarrow>
         (\<exists>s. map_of (importer_index t) m = Some s \<and> rel_path_str f \<in> s)))"
proof (intro conjI ballI impI)
  show i: "importer_index (t\<lparr>read_imports := (read_imports t)(RelPath [] ''__init__.py'' := c)\<rparr>) =
      importer_index t"
    by (rule importer_index_update [OF root_init_name])
  show "analyze (t\<lparr>read_imports := (read_imports t)(RelPath [] ''__init__.py'' := c)\<rparr>) = analyze t"
    unfolding analyze_def i registry_read_update ..
next
  fix x
  assume x: "x \<in> set (importer_index t)"
  obtain m s where ms: "x = (m, s)" by (cases x)
  have "rel_path_str (RelPath [] ''__init__.py'') \<notin> s"
  proof
    assume "rel_path_str (RelPath [] ''__init__.py'') \<in> s"
    with importer_index_entry [of m s t] x ms
    obtain p where p: "file_to_module_name p \<noteq> []"
      and eq: "rel_path_str (RelPath [] ''__init__.py'') = rel_path_str p"
      by auto
    have "rel_path_str p = ''__init__.py''"
      unfolding eq [symmetric] by (simp add: rel_path_str_def parts_def)
    then have "p = RelPath [] ''__init__.py''" by (rule rel_path_str_root_init)
    with p show False by (simp add: root_init_name)
  qed
  with ms show "case x of (m, s) \<Rightarrow> rel_path_str (RelPath [] ''__init__.py'') \<notin> s" by simp
next
  fix f m
  assume f: "f \<in> set (rglob_py t)" "file_to_module_name f \<noteq> []"
    and m: "m \<in> parse_file_imports t f (build_module_registry t)" "m \<noteq> file_to_module_name f"
  from m(1) parse_file_imports_subset [of t f "build_module_registry t"]
  have "py_in m (build_module_registry t)" by (auto simp: py_in_def)
  then have "map_of (importer_index t) m =
      Some {rel_path_str p | p. p \<in> set (rglob_py t) \<and> file_to_module_name p \<noteq> [] \<and>
              m \<in> parse_file_imports t p (build_module_registry t) \<and>
              m \<noteq> file_to_module_name p}"
    by (simp add: importer_index_lookup)
  moreover have "rel_path_str f \<in> {rel_path_str p | p. p \<in> set (rglob_py t) \<and>
      file_to_module_name p \<noteq> [] \<and> m \<in> parse_file_imports t p (build_module_registry t) \<and>
      m \<noteq> file_to_module_name p}"
    using f m by blast
  ultimately show "\<exists>s. map_of (importer_index t) m = Some s \<and> rel_path_str f \<in> s"
    by blast
qed

text \<open>
  In \<^const>\<open>root_init_tree\<close> the root initializer holds \<^verbatim>\<open>import a\<close>, which would
  resolve to \<^verbatim>\<open>a\<close>; the index records \<^verbatim>\<open>b.py\<close> alone for \<^verbatim>\<open>a\<close>.
\<close>

theorem root_initializer_skipped_witness:
  "importer_index root_init_tree = [(''a'', {''b.py''}), (''b'', {})] \<and>
   analyze (root_init_tree\<lparr>read_imports :=
       (read_imports root_init_tree)(RelPath [] ''__init__.py'' := Some [])\<rparr>) =
     analyze root_init_tree \<and>
   ''a'' \<in> parse_file_imports root_init_tree (RelPath [] ''__init__.py'')
            (build_module_registry root_init_tree)"
  using root_initializer_skipped [of root_init_tree "Some []"]
  by (simp add: root_init_tree_def eval_defs eval_more)

end
